theory Spec2Isabelle
  imports Main "HOL-Library.Sublist"
begin

section \<open>Click hints: label generation and the hint session\<close>

text \<open>
  The repository holds three snapshots of the plugin class \<open>ClickHintPlugin\<close>:
  \<^item> \<open>src/main.ts\<close>: bounded two-tier label generator over the fixed letters a..z,
    markers of eliminated candidates are left on screen;
  \<^item> \<open>src/unnamed/part_000\<close>, lines 1-210 (snapshot A): the same bounded generator over
    \<open>settings.hintChars\<close>;
  \<^item> \<open>src/unnamed/part_000\<close>, lines 211-430 (snapshot B): the generalised generator
    that emits all strings of length 1, then of length 2, and so on.
  Definitions without a suffix embed \<open>src/main.ts\<close>; the suffixes \<open>_a\<close> and \<open>_b\<close>
  mark the two snapshots of \<open>part_000\<close>. Code that is the same text in all three
  (\<open>removeHints\<close>, \<open>dispatchElementAction\<close>, the head of \<open>keydownHandler\<close>) is embedded once.

  A JavaScript string is modelled as a \<open>string\<close>, a list of characters, one per code
  unit; a \<open>char\<close> has 256 values, so the strings of the model are those whose code
  units are below 256 (Basic Latin and the Latin-1 Supplement). An exception is a
  value of \<open>error\<close>.
\<close>

subsection \<open>Errors\<close>

datatype error =
    InvalidArgument    \<comment> \<open>\<open>Error('n must be a positive integer.')\<close>\<close>
  | CapacityExceeded   \<comment> \<open>\<open>Error('Cannot generate unique prefixes with the given n. ...')\<close>\<close>
  | URIError           \<comment> \<open>thrown by the builtin \<open>decodeURI\<close> on a malformed escape\<close>

subsection \<open>The bounded label generator (\<open>src/main.ts\<close> 161-203, \<open>part_000\<close> 139-181)\<close>

text \<open>
  The inner \<open>for j\<close> loop: push \<open>prefixes[i] + letters[j]\<close> and leave the loop as soon as
  the number of pushed strings \<^emph>\<open>equals\<close> the number needed.
\<close>

fun forJ :: "char \<Rightarrow> string \<Rightarrow> nat \<Rightarrow> string list \<Rightarrow> string list" where
  "forJ p [] needed longerStrings = longerStrings"
| "forJ p (l # ls) needed longerStrings =
     (let longerStrings' = longerStrings @ [[p, l]]
      in if length longerStrings' = needed then longerStrings'
         else forJ p ls needed longerStrings')"

text \<open>The outer \<open>for i\<close> loop, with the same test after each inner loop.\<close>

fun forI :: "string \<Rightarrow> string \<Rightarrow> nat \<Rightarrow> string list \<Rightarrow> string list" where
  "forI [] letters needed longerStrings = longerStrings"
| "forI (p # ps) letters needed longerStrings =
     (let longerStrings' = forJ p letters needed longerStrings
      in if length longerStrings' = needed then longerStrings'
         else forI ps letters needed longerStrings')"

text \<open>
  The body of the bounded \<open>generateUniquePrefixes\<close>, for a given array \<open>letters\<close>.
  \<open>Math.ceil((n - 26) / 25)\<close> on integers is \<open>- ((- (n - 26)) div 25)\<close>;
  \<open>slice(e)\<close> is \<open>drop e\<close>, \<open>slice(0, e)\<close> is \<open>take e\<close>.
\<close>

definition boundedPrefixes :: "string \<Rightarrow> int \<Rightarrow> error + string list" where
  "boundedPrefixes letters n =
     (if n \<le> 0 then Inl InvalidArgument
      else let maxN = 26 + 25 * 26 in
      if n > maxN then Inl CapacityExceeded
      else if n \<le> 26 then Inr (map (\<lambda>c. [c]) (take (nat n) letters))
      else let e = - ((- (n - 26)) div 25) in
      if e > 26 then Inl CapacityExceeded
      else let singleLetters = map (\<lambda>c. [c]) (drop (nat e) letters);
               prefixes = take (nat e) letters;
               longerStringsNeeded = n - (26 - e);
               longerStrings = forI prefixes letters (nat longerStringsNeeded) []
           in Inr (singleLetters @ longerStrings))"

text \<open>\<open>src/main.ts\<close>: the letters are the constant \<open>'abcdefghijklmnopqrstuvwxyz'.split('')\<close>.\<close>

definition generateUniquePrefixes :: "int \<Rightarrow> error + string list" where
  "generateUniquePrefixes n = boundedPrefixes ''abcdefghijklmnopqrstuvwxyz'' n"

text \<open>Snapshot A: the letters are \<open>this.settings.hintChars.split('')\<close>.\<close>

definition generateUniquePrefixes_a :: "string \<Rightarrow> int \<Rightarrow> error + string list" where
  "generateUniquePrefixes_a hintChars n = boundedPrefixes hintChars n"

subsection \<open>The generalised label generator (\<open>part_000\<close> 370-401)\<close>

text \<open>
  The local recursive function \<open>generateCombinations(prefix, depth)\<close> pushes onto the
  shared array \<open>result\<close>, which is threaded through here; \<open>forLetters\<close> is its
  \<open>for (const letter of letters)\<close> loop over the letters still to visit.
\<close>

fun generateCombinations ::
    "string \<Rightarrow> nat \<Rightarrow> string \<Rightarrow> nat \<Rightarrow> string list \<Rightarrow> string list"
  and forLetters ::
    "string \<Rightarrow> nat \<Rightarrow> string \<Rightarrow> nat \<Rightarrow> string \<Rightarrow> string list \<Rightarrow> string list"
where
  "generateCombinations letters n pre depth result =
     (if n \<le> length result then result
      else (case depth of
              0 \<Rightarrow> result @ [pre]
            | Suc d \<Rightarrow> forLetters letters n pre d letters result))"
| "forLetters letters n pre d [] result = result"
| "forLetters letters n pre d (letter # rest) result =
     (let result' = generateCombinations letters n (pre @ [letter]) d result
      in if n \<le> length result' then result'
         else forLetters letters n pre d rest result')"

text \<open>
  The \<open>while (result.length < n)\<close> loop. Nothing bounds the number of its rounds, so
  it is a partial function: \<open>None\<close> is the loop that never ends.
\<close>

partial_function (option) whileShort ::
    "string \<Rightarrow> nat \<Rightarrow> string list \<Rightarrow> nat \<Rightarrow> string list option"
where
  "whileShort letters n result len =
     (if length result < n
      then whileShort letters n (generateCombinations letters n [] len result) (len + 1)
      else Some result)"

definition generateUniquePrefixes_b :: "string \<Rightarrow> int \<Rightarrow> (error + string list) option" where
  "generateUniquePrefixes_b hintChars n =
     (let letters = hintChars in
      if n \<le> 0 then Some (Inl InvalidArgument)
      else map_option Inr (whileShort letters (nat n) [] 1))"

text \<open>The properties the specification asks of a label sequence.\<close>

definition noPrefix :: "string list \<Rightarrow> bool" where
  "noPrefix labels = (\<forall>x \<in> set labels. \<forall>y \<in> set labels. x \<noteq> y \<longrightarrow> \<not> prefix x y)"

definition over :: "string \<Rightarrow> string list \<Rightarrow> bool" where
  "over A labels = (\<forall>x \<in> set labels. x \<noteq> [] \<and> set x \<subseteq> set A)"

subsection \<open>Settings (\<open>src/main.ts\<close> 3-13 and 36-38)\<close>

record settings =
  hintChars :: string
  bgColor :: string
  fgColor :: string

definition DEFAULT_SETTINGS :: settings where
  "DEFAULT_SETTINGS =
     \<lparr>hintChars = ''abcdefghijklmnopqrstuvwxyz'', bgColor = ''yellow'', fgColor = ''#ff6b6b''\<rparr>"

text \<open>
  \<open>loadData()\<close> yields the stored object or nothing; the stored object is a map from
  property names to string values. \<open>Object.assign({}, DEFAULT_SETTINGS, data)\<close> copies
  the defaults and then every property that \<open>data\<close> has, whatever its value.
\<close>

definition loadSettings :: "(string \<rightharpoonup> string) option \<Rightarrow> settings" where
  "loadSettings loadData =
     (let data = (case loadData of None \<Rightarrow> Map.empty | Some d \<Rightarrow> d);
          get = (\<lambda>name dflt. case data name of None \<Rightarrow> dflt DEFAULT_SETTINGS | Some v \<Rightarrow> v)
      in \<lparr>hintChars = get ''hintChars'' hintChars,
          bgColor = get ''bgColor'' bgColor,
          fgColor = get ''fgColor'' fgColor\<rparr>)"

subsection \<open>Elements, markers, the plugin and the document\<close>

text \<open>
  Of a clickable element the code reads the tag name, the class name of the parent
  (\<open>parentElement?.className\<close>, absent without a parent), the visible text and the
  left and top of its bounding rectangle (pixels, taken as integers here).
\<close>

record element =
  tagName :: string
  parentClassName :: "string option"
  innerText :: string
  rectLeft :: int
  rectTop :: int

text \<open>
  A marker is a \<open>div\<close> with a class, two style properties and child nodes: text, or
  the \<open>span\<close> (class, text) that emphasises the matched part.
\<close>

datatype node = TextNode string | Span string string

record marker =
  cls :: string
  style :: "(string \<times> int) list"
  children :: "node list"

fun nodeText :: "node \<Rightarrow> string" where
  "nodeText (TextNode t) = t"
| "nodeText (Span c t) = t"

definition textContent :: "marker \<Rightarrow> string" where
  "textContent m = concat (map nodeText (children m))"

text \<open>
  The plugin fields \<open>hintMode\<close> and \<open>hintElements\<close> and, of the document, the markers
  (in document order) and the registered \<open>keydownHandler\<close> closures. A closure is
  represented by the \<open>currentInput\<close> it has captured. \<open>hintElements\<close> is an object
  used as a dictionary; its entries are kept in insertion order, as \<open>Object.entries\<close>
  lists them. (\<open>Object.entries\<close> lists keys that are written like array indices first;
  the handler only asks whether some key starts with the input and which entry has
  the key equal to it, and keys are unique, so the order does not affect it.)
\<close>

record world =
  hintMode :: bool
  hintElements :: "(string \<times> element) list"
  markers :: "marker list"
  listeners :: "string list"

text \<open>What the host supplies to the plugin.\<close>

record env =
  clickable :: "element list"     \<comment> \<open>the elements \<open>querySelectorAll\<close> (and the filter of snapshot B) yields\<close>
  appContainer :: bool            \<comment> \<open>whether \<open>document.querySelector('.app-container')\<close> finds one\<close>
  activeFile :: "string option"   \<comment> \<open>the path of \<open>app.workspace.getActiveFile()\<close>\<close>
  decodeURI :: "string \<Rightarrow> error + string"  \<comment> \<open>the builtin; \<open>Inl URIError\<close> when it throws\<close>

text \<open>The calls the plugin makes on the event and on the host.\<close>

datatype call =
    PreventDefault
  | StopPropagation
  | OpenLinkText string string    \<comment> \<open>\<open>app.workspace.openLinkText(linktext, sourcePath, false, {active: true})\<close>\<close>
  | WindowOpen string string      \<comment> \<open>\<open>window.open(url, target)\<close>\<close>
  | Click element                 \<comment> \<open>\<open>element.click()\<close>\<close>

subsection \<open>String helpers\<close>

definition startsWith :: "string \<Rightarrow> string \<Rightarrow> bool" where
  "startsWith s t = prefix t s"

fun contains :: "string \<Rightarrow> string \<Rightarrow> bool" where
  "contains [] t = (t = [])"
| "contains (c # s) t = (prefix t (c # s) \<or> contains s t)"

text \<open>
  \<open>String.prototype.toLowerCase\<close> on the code units of the model, those below 256:
  the capital letters of Basic Latin (\<open>A\<close> to \<open>Z\<close>) and of the Latin-1 Supplement
  (U+00C0 to U+00DE without the multiplication sign U+00D7) go to their small
  letters, every other code unit is kept. No code unit below 256 has a lower-case
  form of more than one code unit or outside this range.
\<close>

definition capitals :: string where
  "capitals = ''ABCDEFGHIJKLMNOPQRSTUVWXYZ'' @
     [CHR 0xC0, CHR 0xC1, CHR 0xC2, CHR 0xC3, CHR 0xC4, CHR 0xC5, CHR 0xC6, CHR 0xC7,
      CHR 0xC8, CHR 0xC9, CHR 0xCA, CHR 0xCB, CHR 0xCC, CHR 0xCD, CHR 0xCE, CHR 0xCF,
      CHR 0xD0, CHR 0xD1, CHR 0xD2, CHR 0xD3, CHR 0xD4, CHR 0xD5, CHR 0xD6,
      CHR 0xD8, CHR 0xD9, CHR 0xDA, CHR 0xDB, CHR 0xDC, CHR 0xDD, CHR 0xDE]"

definition smalls :: string where
  "smalls = ''abcdefghijklmnopqrstuvwxyz'' @
     [CHR 0xE0, CHR 0xE1, CHR 0xE2, CHR 0xE3, CHR 0xE4, CHR 0xE5, CHR 0xE6, CHR 0xE7,
      CHR 0xE8, CHR 0xE9, CHR 0xEA, CHR 0xEB, CHR 0xEC, CHR 0xED, CHR 0xEE, CHR 0xEF,
      CHR 0xF0, CHR 0xF1, CHR 0xF2, CHR 0xF3, CHR 0xF4, CHR 0xF5, CHR 0xF6,
      CHR 0xF8, CHR 0xF9, CHR 0xFA, CHR 0xFB, CHR 0xFC, CHR 0xFD, CHR 0xFE]"

definition lowerChar :: "char \<Rightarrow> char" where
  "lowerChar c = (case map_of (zip capitals smalls) c of None \<Rightarrow> c | Some l \<Rightarrow> l)"

definition toLowerCase :: "string \<Rightarrow> string" where
  "toLowerCase s = map lowerChar s"

subsection \<open>\<open>removeHints\<close> (\<open>src/main.ts\<close> 155-159)\<close>

definition removeHints :: "world \<Rightarrow> world" where
  "removeHints w = w\<lparr>hintMode := False, markers := [], hintElements := []\<rparr>"

subsection \<open>\<open>dispatchElementAction\<close> (\<open>src/main.ts\<close> 138-153)\<close>

definition dispatchElementAction :: "env \<Rightarrow> element \<Rightarrow> error + call list" where
  "dispatchElementAction env el =
     (if tagName el = ''A'' \<and>
         (case parentClassName el of None \<Rightarrow> False | Some c \<Rightarrow> contains c ''internal-link'')
      then (case activeFile env of
              Some path \<Rightarrow>
                (case decodeURI env (innerText el) of
                   Inl e \<Rightarrow> Inl e
                 | Inr linktext \<Rightarrow> Inr [OpenLinkText linktext path])
            | None \<Rightarrow> Inr [])
      else if tagName el = ''A''
      then Inr [WindowOpen (innerText el) ''_blank'', Click el]
      else Inr [Click el])"

subsection \<open>\<open>keydownHandler\<close> (\<open>src/main.ts\<close> 92-132, \<open>part_000\<close> 65-110 and 297-342)\<close>

text \<open>
  One call of the handler yields the world after it, the closure's \<open>currentInput\<close>,
  whether the closure is still registered (\<open>False\<close> once
  \<open>document.removeEventListener\<close> has run), the calls made in order, the exception
  that left the handler, if any, and, when \<open>dispatchElementAction\<close> was entered, the
  world as it was at that moment together with the element passed.
\<close>

record keyResult =
  after :: world
  input :: string
  registered :: bool
  calls :: "call list"
  activated :: "(world \<times> element) option"
  thrown :: "error option"

text \<open>
  The emphasis of one marker. \<open>src/main.ts\<close> assigns \<open>innerHTML\<close>; \<open>part_000\<close>
  builds the same children with \<open>createEl\<close>, \<open>setText\<close> and \<open>insertBefore\<close>.
  An empty remainder leaves no text node.
\<close>

definition emphasize :: "string \<Rightarrow> string \<Rightarrow> marker \<Rightarrow> marker" where
  "emphasize spanClass currentInput m =
     (let hintText = textContent m;
          rest = drop (length currentInput) hintText
      in m\<lparr>children := Span spanClass currentInput # (if rest = [] then [] else [TextNode rest])\<rparr>)"

text \<open>\<open>src/main.ts\<close> 125-131: a marker that does not match is left as it is.\<close>

fun updateMarkers :: "string \<Rightarrow> marker list \<Rightarrow> marker list" where
  "updateMarkers currentInput [] = []"
| "updateMarkers currentInput (m # ms) =
     (if startsWith (textContent m) currentInput
      then emphasize ''hint-matched'' currentInput m # updateMarkers currentInput ms
      else m # updateMarkers currentInput ms)"

text \<open>\<open>part_000\<close> 98-109 and 330-341: a marker that does not match is removed.\<close>

fun updateMarkers_b :: "string \<Rightarrow> marker list \<Rightarrow> marker list" where
  "updateMarkers_b currentInput [] = []"
| "updateMarkers_b currentInput (m # ms) =
     (if startsWith (textContent m) currentInput
      then emphasize ''click-hint-matched'' currentInput m # updateMarkers_b currentInput ms
      else updateMarkers_b currentInput ms)"

text \<open>The handler; \<open>update\<close> is the final \<open>forEach\<close> over the markers.\<close>

definition keydownHandlerWith ::
    "(string \<Rightarrow> marker list \<Rightarrow> marker list) \<Rightarrow> env \<Rightarrow> world \<Rightarrow> string \<Rightarrow> string \<Rightarrow> keyResult"
where
  "keydownHandlerWith update env w currentInput evtKey =
     (if \<not> hintMode w
      then \<lparr>after = w, input = currentInput, registered = True, calls = [],
            activated = None, thrown = None\<rparr>
      else let key = toLowerCase evtKey in
      if key = ''escape''
      then \<lparr>after = removeHints w, input = currentInput, registered = False,
            calls = [PreventDefault, StopPropagation], activated = None, thrown = None\<rparr>
      else let currentInput' = currentInput @ key;
               hintCharacters = hintElements w;
               partialMatch = filter (\<lambda>(hint, _). startsWith hint currentInput') hintCharacters
      in if partialMatch = []
      then \<lparr>after = removeHints w, input = currentInput', registered = False,
            calls = [PreventDefault, StopPropagation], activated = None, thrown = None\<rparr>
      else (case find (\<lambda>(hint, _). hint = currentInput') partialMatch of
              Some fullMatch \<Rightarrow>
                (let w' = removeHints w;
                     targetElement = snd fullMatch
                 in case dispatchElementAction env targetElement of
                      Inl e \<Rightarrow>
                        \<lparr>after = w', input = currentInput', registered = True,
                         calls = [PreventDefault, StopPropagation],
                         activated = Some (w', targetElement), thrown = Some e\<rparr>
                    | Inr cs \<Rightarrow>
                        \<lparr>after = w', input = currentInput', registered = False,
                         calls = [PreventDefault, StopPropagation] @ cs,
                         activated = Some (w', targetElement), thrown = None\<rparr>)
            | None \<Rightarrow>
                \<lparr>after = w\<lparr>markers := update currentInput' (markers w)\<rparr>,
                 input = currentInput', registered = True,
                 calls = [PreventDefault, StopPropagation], activated = None, thrown = None\<rparr>))"

definition keydownHandler :: "env \<Rightarrow> world \<Rightarrow> string \<Rightarrow> string \<Rightarrow> keyResult" where
  "keydownHandler = keydownHandlerWith updateMarkers"

definition keydownHandler_b :: "env \<Rightarrow> world \<Rightarrow> string \<Rightarrow> string \<Rightarrow> keyResult" where
  "keydownHandler_b = keydownHandlerWith updateMarkers_b"

subsection \<open>\<open>showHints\<close> (\<open>src/main.ts\<close> 65-135, \<open>part_000\<close> 258-345)\<close>

text \<open>\<open>this.hintElements[hint] = element\<close>: a known key keeps its place.\<close>

fun setProp :: "string \<Rightarrow> element \<Rightarrow> (string \<times> element) list \<Rightarrow> (string \<times> element) list" where
  "setProp k v [] = [(k, v)]"
| "setProp k v ((k', v') # kvs) = (if k = k' then (k, v) # kvs else (k', v') # setProp k v kvs)"

definition newMarker :: "string \<Rightarrow> string \<Rightarrow> string \<Rightarrow> string \<Rightarrow> element \<Rightarrow> marker" where
  "newMarker c leftProp topProp hint el =
     \<lparr>cls = c, style = [(leftProp, rectLeft el), (topProp, rectTop el)],
      children = [TextNode hint]\<rparr>"

text \<open>
  The \<open>forEach\<close> over the clickable elements with their hints. Both generators
  return as many hints as there are elements (\<open>boundedPrefixes_count\<close>, \<open>gup_b_ok\<close>),
  so \<open>hints[index]\<close> is defined for every element.
\<close>

fun forEachElement ::
    "(element \<Rightarrow> string \<Rightarrow> marker) \<Rightarrow> (element \<times> string) list \<Rightarrow> world \<Rightarrow> world" where
  "forEachElement mk [] w = w"
| "forEachElement mk ((el, hint) # rest) w =
     forEachElement mk rest
       (w\<lparr>markers := markers w @ [mk el hint], hintElements := setProp hint el (hintElements w)\<rparr>)"

text \<open>
  \<open>src/main.ts\<close>. The result is the world when \<open>showHints\<close> is left and the exception
  that left it, if any. The new closure starts with \<open>currentInput = ''\<close>.
\<close>

definition showHints :: "env \<Rightarrow> world \<Rightarrow> world \<times> error option" where
  "showHints env w =
     (if hintMode w then (w, None)
      else let w1 = w\<lparr>hintMode := True\<rparr>;
               clickableElements = clickable env
      in case generateUniquePrefixes (int (length clickableElements)) of
           Inl e \<Rightarrow> (w1, Some e)
         | Inr hints \<Rightarrow>
             (let w2 = forEachElement (\<lambda>el hint. newMarker ''hint-marker'' ''left'' ''top'' hint el)
                         (zip clickableElements hints) w1
              in (w2\<lparr>listeners := listeners w2 @ [[]]\<rparr>, None)))"

text \<open>Snapshot B; \<open>None\<close> when the label generator never returns.\<close>

definition showHints_b :: "env \<Rightarrow> settings \<Rightarrow> world \<Rightarrow> (world \<times> error option) option" where
  "showHints_b env st w =
     (if hintMode w then Some (w, None)
      else let w1 = w\<lparr>hintMode := True\<rparr>;
               clickableElements = clickable env
      in case generateUniquePrefixes_b (hintChars st) (int (length clickableElements)) of
           None \<Rightarrow> None
         | Some (Inl e) \<Rightarrow> Some (w1, Some e)
         | Some (Inr hints) \<Rightarrow>
             if \<not> appContainer env then Some (w1, None)
             else (let w2 = forEachElement
                              (\<lambda>el hint. newMarker ''click-hint-marker'' ''--hint-left'' ''--hint-top'' hint el)
                              (zip clickableElements hints) w1
                   in Some (w2\<lparr>listeners := listeners w2 @ [[]]\<rparr>, None)))"

subsection \<open>The host delivering key events\<close>

text \<open>
  One \<open>keydown\<close> event goes to the closures that were registered when it was fired, in
  order of registration; an exception in one of them does not stop the others. The
  result is the closures still registered, the world, and what each call did.
\<close>

fun deliver ::
    "(world \<Rightarrow> string \<Rightarrow> string \<Rightarrow> keyResult) \<Rightarrow> string \<Rightarrow> string list \<Rightarrow> world
     \<Rightarrow> string list \<times> world \<times> keyResult list" where
  "deliver h evtKey [] w = ([], w, [])"
| "deliver h evtKey (currentInput # rest) w =
     (let r = h w currentInput evtKey;
          (kept, w', rs) = deliver h evtKey rest (after r)
      in ((if registered r then [input r] else []) @ kept, w', r # rs))"

definition keydown ::
    "(world \<Rightarrow> string \<Rightarrow> string \<Rightarrow> keyResult) \<Rightarrow> string \<Rightarrow> world \<Rightarrow> world \<times> keyResult list" where
  "keydown h evtKey w =
     (let (kept, w', rs) = deliver h evtKey (listeners w) w in (w'\<lparr>listeners := kept\<rparr>, rs))"

text \<open>A sequence of key events with no start request in between.\<close>

fun keydowns ::
    "(world \<Rightarrow> string \<Rightarrow> string \<Rightarrow> keyResult) \<Rightarrow> string list \<Rightarrow> world \<Rightarrow> world \<times> keyResult list" where
  "keydowns h [] w = (w, [])"
| "keydowns h (k # ks) w =
     (let (w', rs) = keydown h k w; (w'', rs') = keydowns h ks w' in (w'', rs @ rs'))"

definition activations :: "keyResult list \<Rightarrow> element list" where
  "activations rs = map snd (List.map_filter activated rs)"

subsection \<open>Letters and their case, as the claims speak of them\<close>

text \<open>
  Stated on code unit numbers, apart from the table above: a capital letter is a code
  unit from 65 to 90, from 192 to 214 or from 216 to 222, and its small letter is the
  code unit 32 above it. Two characters are the same letter when they are equal or
  one is the small letter of the other; \<open>lowered\<close> is a key name with every capital
  letter replaced by its small letter.
\<close>

definition isCapital :: "char \<Rightarrow> bool" where
  "isCapital c =
     (let n = (of_char c :: nat)
      in (65 \<le> n \<and> n \<le> 90) \<or> (192 \<le> n \<and> n \<le> 214) \<or> (216 \<le> n \<and> n \<le> 222))"

definition smallOf :: "char \<Rightarrow> char" where
  "smallOf c = char_of (of_char c + 32 :: nat)"

definition sameLetter :: "char \<Rightarrow> char \<Rightarrow> bool" where
  "sameLetter a b = (a = b \<or> (isCapital a \<and> b = smallOf a) \<or> (isCapital b \<and> a = smallOf b))"

definition lowered :: "string \<Rightarrow> string" where
  "lowered k = map (\<lambda>c. if isCapital c then smallOf c else c) k"

subsection \<open>The settings tab (\<open>src/main.ts\<close> 40-42 and 219-230)\<close>

text \<open>
  The \<open>onChange\<close> of the text field \<open>Hint characters\<close> assigns whatever the field holds
  to \<open>settings.hintChars\<close> and saves the settings object; \<open>saveSettings\<close> yields what
  \<open>loadData()\<close> finds at the next load.
\<close>

definition onChangeHintChars :: "string \<Rightarrow> settings \<Rightarrow> settings" where
  "onChangeHintChars v st = st\<lparr>hintChars := v\<rparr>"

definition saveSettings :: "settings \<Rightarrow> (string \<rightharpoonup> string) option" where
  "saveSettings st =
     Some [''hintChars'' \<mapsto> hintChars st, ''bgColor'' \<mapsto> bgColor st, ''fgColor'' \<mapsto> fgColor st]"

subsection \<open>The two key handlers and example inputs\<close>

text \<open>The key handlers of the snapshots, as the host sees them.\<close>

definition handlers :: "env \<Rightarrow> (world \<Rightarrow> string \<Rightarrow> string \<Rightarrow> keyResult) set" where
  "handlers env = {keydownHandler env, keydownHandler_b env}"

text \<open>
  The host of the examples. Its \<open>decodeURI\<close> is the builtin on the texts the examples
  use: a text without \<open>%\<close> comes back as it is, and \<open>100%\<close>, where \<open>%\<close> is not
  followed by two hexadecimal digits, raises \<open>URIError\<close>.
\<close>

definition exampleDecodeURI :: "string \<Rightarrow> error + string" where
  "exampleDecodeURI s = (if CHR ''%'' \<in> set s then Inl URIError else Inr s)"

definition button :: element where
  "button = \<lparr>tagName = ''BUTTON'', parentClassName = Some ''nav-buttons'', innerText = ''OK'',
             rectLeft = 10, rectTop = 20\<rparr>"

definition externalLink :: element where
  "externalLink = \<lparr>tagName = ''A'', parentClassName = Some ''markdown-preview'',
                   innerText = ''https://example.com'', rectLeft = 10, rectTop = 40\<rparr>"

definition percentLink :: element where
  "percentLink = \<lparr>tagName = ''A'', parentClassName = Some ''cm-hmd-internal-link'',
                  innerText = ''100%'', rectLeft = 10, rectTop = 60\<rparr>"

definition idle :: world where
  "idle = \<lparr>hintMode = False, hintElements = [], markers = [], listeners = []\<rparr>"

definition page :: "element list \<Rightarrow> env" where
  "page els = \<lparr>clickable = els, appContainer = True, activeFile = Some ''note.md'',
               decodeURI = exampleDecodeURI\<rparr>"

definition page3 :: env where
  "page3 = page [button, externalLink, percentLink]"

definition page27 :: env where
  "page27 = page (replicate 27 button)"

text \<open>The world after \<open>showHints\<close> of \<open>src/main.ts\<close> on the page of three elements.\<close>

definition session3 :: world where
  "session3 = fst (showHints page3 idle)"

text \<open>The world after \<open>showHints\<close> of \<open>src/main.ts\<close> on the page of 27 buttons.\<close>

definition session27 :: world where
  "session27 = fst (showHints page27 idle)"

text \<open>
  The test of \<open>dispatchElementAction\<close> for an internal link, and an internal link
  with a plain text.
\<close>

definition internalLink :: "element \<Rightarrow> bool" where
  "internalLink el =
     (tagName el = ''A'' \<and>
      (case parentClassName el of None \<Rightarrow> False | Some c \<Rightarrow> contains c ''internal-link''))"

definition noteLink :: element where
  "noteLink = \<lparr>tagName = ''A'', parentClassName = Some ''cm-hmd-internal-link'',
               innerText = ''Note'', rectLeft = 10, rectTop = 80\<rparr>"

subsection \<open>Auxiliary notions for the proofs\<close>

text \<open>All strings of a given length over the letters, in the order the generalised
  generator visits them, and the concatenation of the levels \<open>1, ..., m - 1\<close>.\<close>

fun strs :: "string \<Rightarrow> nat \<Rightarrow> string list" where
  "strs letters 0 = [[]]"
| "strs letters (Suc d) = concat (map (\<lambda>l. map (Cons l) (strs letters d)) letters)"

definition levels :: "string \<Rightarrow> nat \<Rightarrow> string list" where
  "levels letters m = concat (map (strs letters) [1..<m])"

text \<open>All two-letter strings with a first letter from \<open>ps\<close>, in the order of the two
  loops of the bounded generator.\<close>

definition pairs :: "string \<Rightarrow> string \<Rightarrow> string list" where
  "pairs ps letters = concat (map (\<lambda>p. map (\<lambda>l. [p, l]) letters) ps)"


section \<open>Lemmas about the label generators\<close>

subsection \<open>The generalised generator\<close>

lemma gc_char:
  "generateCombinations letters n pre depth result =
     result @ take (n - length result) (map (\<lambda>w. pre @ w) (strs letters depth))"
  "forLetters letters n pre d ls result =
     result @ take (n - length result) (concat (map (\<lambda>l. map (\<lambda>w. pre @ l # w) (strs letters d)) ls))"
proof (induction letters n pre depth result and letters n pre d ls result
       rule: generateCombinations_forLetters.induct)
  case (1 letters n pre depth result)
  show ?case
  proof (cases "n \<le> length result")
    case True
    then show ?thesis by simp
  next
    case False
    show ?thesis
    proof (cases depth)
      case 0
      with False show ?thesis by (simp add: take_Cons')
    next
      case (Suc d)
      have "map (\<lambda>w. pre @ w) (strs letters (Suc d)) =
            concat (map (\<lambda>l. map (\<lambda>w. pre @ l # w) (strs letters d)) letters)"
        by (simp add: map_concat comp_def)
      with False Suc 1 show ?thesis by simp
    qed
  qed
next
  case (2 letters n pre d result)
  show ?case by simp
next
  case (3 letters n pre d letter rest result)
  let ?r = "generateCombinations letters n (pre @ [letter]) d result"
  have r: "?r = result @ take (n - length result) (map (\<lambda>w. pre @ letter # w) (strs letters d))"
    using 3(1) by (simp add: comp_def)
  show ?case
  proof (cases "n \<le> length ?r")
    case True
    then show ?thesis using r by (auto simp: min_def split: if_splits)
  next
    case False
    then have "forLetters letters n pre d rest ?r =
       ?r @ take (n - length ?r) (concat (map (\<lambda>l. map (\<lambda>w. pre @ l # w) (strs letters d)) rest))"
      using 3(2) by simp
    with False show ?thesis using r by (auto simp: min_def Let_def split: if_splits)
  qed
qed


lemma length_strs: "length (strs letters d) = length letters ^ d"
  by (induction d) (simp_all add: length_concat comp_def sum_list_triv)

lemma strs_nonempty: "letters \<noteq> [] \<Longrightarrow> strs letters d \<noteq> []"
  using length_strs [of letters d] by (metis length_0_conv power_not_zero)

lemma strs_length: "w \<in> set (strs letters d) \<Longrightarrow> length w = d"
  by (induction d arbitrary: w) auto

lemma strs_set: "w \<in> set (strs letters d) \<Longrightarrow> set w \<subseteq> set letters"
  by (induction d arbitrary: w) fastforce+

lemma distinct_strs: "distinct letters \<Longrightarrow> distinct (strs letters d)"
proof (induction d)
  case 0
  show ?case by simp
next
  case (Suc d)
  have "distinct (concat (map (\<lambda>l. map (Cons l) (strs letters d)) letters))"
  proof (rule distinct_concat)
    show "distinct (map (\<lambda>l. map (Cons l) (strs letters d)) letters)"
      using Suc.prems strs_nonempty [of letters d]
      by (cases "letters = []") (auto simp: distinct_map inj_on_def dest!: map_injective)
  next
    fix ys assume "ys \<in> set (map (\<lambda>l. map (Cons l) (strs letters d)) letters)"
    then show "distinct ys" using Suc by (auto simp: distinct_map)
  next
    fix ys zs
    assume "ys \<in> set (map (\<lambda>l. map (Cons l) (strs letters d)) letters)"
       "zs \<in> set (map (\<lambda>l. map (Cons l) (strs letters d)) letters)" "ys \<noteq> zs"
    then show "set ys \<inter> set zs = {}" by auto
  qed
  then show ?case by simp
qed


lemma levels_Suc: "0 < len \<Longrightarrow> levels letters (Suc len) = levels letters len @ strs letters len"
  by (simp add: levels_def)

lemma whileShort_levels:
  assumes "letters \<noteq> []" "0 < len"
  shows "length result < n \<Longrightarrow> result = levels letters len \<Longrightarrow>
         \<exists>m. whileShort letters n result len = Some (take n (levels letters m)) \<and>
             n \<le> length (levels letters m)"
  using assms(2)
proof (induction "n - length result" arbitrary: result len rule: less_induct)
  case less
  let ?r = "generateCombinations letters n [] len result"
  have r: "?r = result @ take (n - length result) (strs letters len)"
    by (subst gc_char(1)) (simp add: map_idI)
  have ne: "strs letters len \<noteq> []" using assms(1) by (rule strs_nonempty)
  have step: "whileShort letters n result len = whileShort letters n ?r (len + 1)"
    using less.prems(1) by (subst whileShort.simps) simp
  show ?case
  proof (cases "length ?r < n")
    case True
    then have full: "?r = levels letters (Suc len)"
      using r less.prems by (auto simp: levels_Suc min_def split: if_splits)
    have "n - length ?r < n - length result"
      using r ne less.prems(1) True by (cases "strs letters len") (auto simp: min_def)
    from less.hyps [OF this True] full show ?thesis
      using step by simp
  next
    case False
    then have "whileShort letters n ?r (len + 1) = Some ?r"
      by (subst whileShort.simps) simp
    moreover have "?r = take n (levels letters (Suc len))"
      using r less.prems by (simp add: levels_Suc)
    moreover have "n \<le> length (levels letters (Suc len))"
      using False r less.prems by (auto simp: levels_Suc min_def split: if_splits)
    ultimately show ?thesis using step by metis
  qed
qed

lemma levels_length: "w \<in> set (levels letters m) \<Longrightarrow> 0 < length w"
  by (auto simp: levels_def dest: strs_length)

lemma levels_set: "w \<in> set (levels letters m) \<Longrightarrow> set w \<subseteq> set letters"
  by (auto simp: levels_def dest: strs_set)

lemma strs_inj:
  assumes "letters \<noteq> []" "strs letters a = strs letters b"
  shows "a = b"
proof -
  obtain w where w: "w \<in> set (strs letters a)"
    using strs_nonempty [OF assms(1), of a] by (cases "strs letters a") auto
  then have "length w = a" by (rule strs_length)
  moreover have "length w = b" using w assms(2) by (simp add: strs_length)
  ultimately show ?thesis by simp
qed

lemma distinct_levels:
  assumes d: "distinct letters"
  shows "distinct (levels letters m)"
proof (cases "letters = []")
  case True
  have "strs [] k = []" if "0 < k" for k using that by (cases k) simp_all
  then have "levels [] m = []" by (auto simp: levels_def)
  with True show ?thesis by simp
next
  case False
  show ?thesis
    unfolding levels_def
  proof (rule distinct_concat)
    show "distinct (map (strs letters) [1..<m])"
      using strs_inj [OF False] by (auto simp: distinct_map inj_on_def)
    show "\<And>ys. ys \<in> set (map (strs letters) [1..<m]) \<Longrightarrow> distinct ys"
      using d by (auto simp: distinct_strs)
    show "\<And>ys zs. ys \<in> set (map (strs letters) [1..<m]) \<Longrightarrow> zs \<in> set (map (strs letters) [1..<m])
          \<Longrightarrow> ys \<noteq> zs \<Longrightarrow> set ys \<inter> set zs = {}"
      by (auto dest: strs_length)
  qed
qed

subsection \<open>The bounded generator\<close>

lemma forJ_char:
  "length acc < needed \<Longrightarrow>
   forJ p ls needed acc = acc @ take (needed - length acc) (map (\<lambda>l. [p, l]) ls)"
proof (induction ls arbitrary: acc)
  case Nil
  show ?case by simp
next
  case (Cons l ls)
  show ?case
  proof (cases "Suc (length acc) = needed")
    case True
    then have "needed - length acc = Suc 0" by simp
    with True show ?thesis by (simp add: Let_def)
  next
    case False
    with Cons.prems have "length (acc @ [[p, l]]) < needed" by simp
    from Cons.IH [OF this] False Cons.prems show ?thesis
      by (simp add: Let_def take_Cons' )
  qed
qed


lemma forI_char:
  "length acc < needed \<Longrightarrow>
   forI ps letters needed acc = acc @ take (needed - length acc) (pairs ps letters)"
proof (induction ps arbitrary: acc)
  case Nil
  show ?case by (simp add: pairs_def)
next
  case (Cons p ps)
  let ?a = "forJ p letters needed acc"
  have a: "?a = acc @ take (needed - length acc) (map (\<lambda>l. [p, l]) letters)"
    using Cons.prems by (rule forJ_char)
  show ?case
  proof (cases "length ?a = needed")
    case True
    then show ?thesis using a Cons.prems by (auto simp: Let_def pairs_def min_def split: if_splits)
  next
    case False
    then have lt: "length ?a < needed" using a Cons.prems by (auto simp: min_def split: if_splits)
    from Cons.IH [OF lt] False show ?thesis
      using a Cons.prems lt by (auto simp: Let_def pairs_def min_def split: if_splits)
  qed
qed

lemma pairs_set: "w \<in> set (pairs ps letters) \<Longrightarrow> \<exists>p l. w = [p, l] \<and> p \<in> set ps \<and> l \<in> set letters"
  by (auto simp: pairs_def)

lemma pairs_take_set:
  "w \<in> set (take k (pairs ps letters)) \<Longrightarrow> \<exists>p l. w = [p, l] \<and> p \<in> set ps \<and> l \<in> set letters"
  by (rule pairs_set) (rule in_set_takeD)

lemma length_pairs: "length (pairs ps letters) = length ps * length letters"
  by (induction ps) (simp_all add: pairs_def)

lemma distinct_pairs: "distinct ps \<Longrightarrow> distinct letters \<Longrightarrow> distinct (pairs ps letters)"
proof (induction ps)
  case Nil
  show ?case by (simp add: pairs_def)
next
  case (Cons p ps)
  then have "distinct (pairs ps letters)" by simp
  moreover have "distinct (map (\<lambda>l. [p, l]) letters)"
    using Cons.prems by (simp add: distinct_map inj_on_def)
  moreover have "set (map (\<lambda>l. [p, l]) letters) \<inter> set (pairs ps letters) = {}"
    using Cons.prems by (auto dest!: pairs_set)
  ultimately show ?case by (simp add: pairs_def)
qed

text \<open>Shape of every successful result of the bounded generator.\<close>

lemma boundedPrefixes_shape:
  assumes "boundedPrefixes letters n = Inr r"
  shows "\<exists>e k. r = map (\<lambda>c. [c]) (drop e letters) @ take k (pairs (take e letters) letters)
             \<or> r = map (\<lambda>c. [c]) (take k letters)"
proof (cases "n \<le> 26")
  case True
  with assms show ?thesis by (auto simp: boundedPrefixes_def split: if_splits)
next
  case False
  with assms have "r = map (\<lambda>c. [c]) (drop (nat (- ((- (n - 26)) div 25))) letters) @
       forI (take (nat (- ((- (n - 26)) div 25))) letters) letters (nat (n - (26 - (- ((- (n - 26)) div 25))))) []"
    by (auto simp: boundedPrefixes_def Let_def split: if_splits)
  moreover have "0 < nat (n - (26 - (- ((- (n - 26)) div 25))))" using False by simp
  ultimately show ?thesis by (metis forI_char append_Nil list.size(3))
qed

lemma noPrefix_singles_pairs:
  assumes "distinct letters"
  shows "noPrefix (map (\<lambda>c. [c]) (drop e letters) @ take k (pairs (take e letters) letters))"
proof -
  have disj: "set (take e letters) \<inter> set (drop e letters) = {}"
    using assms by (metis append_take_drop_id distinct_append)
  show ?thesis
    unfolding noPrefix_def
  proof (intro ballI impI)
    fix x y
    assume x: "x \<in> set (map (\<lambda>c. [c]) (drop e letters) @ take k (pairs (take e letters) letters))"
       and y: "y \<in> set (map (\<lambda>c. [c]) (drop e letters) @ take k (pairs (take e letters) letters))"
       and ne: "x \<noteq> y"
    from x consider (s) c where "x = [c]" "c \<in> set (drop e letters)"
      | (p) a b where "x = [a, b]" "a \<in> set (take e letters)"
      by (auto dest!: pairs_take_set)
    then show "\<not> prefix x y"
    proof cases
      case s
      from y consider (s') c' where "y = [c']" "c' \<in> set (drop e letters)"
        | (p') a b where "y = [a, b]" "a \<in> set (take e letters)"
        by (auto dest!: pairs_take_set)
      then show ?thesis
      proof cases
        case s' with s ne show ?thesis by auto
      next
        case p' with s disj show ?thesis by auto
      qed
    next
      case p
      from y consider (s') c' where "y = [c']" "c' \<in> set (drop e letters)"
        | (p') a' b' where "y = [a', b']" "a' \<in> set (take e letters)"
        by (auto dest!: pairs_take_set)
      then show ?thesis
      proof cases
        case s' with p show ?thesis by auto
      next
        case p' with p ne show ?thesis by auto
      qed
    qed
  qed
qed

lemma noPrefix_singles: "noPrefix (map (\<lambda>c. [c]) cs)"
  by (auto simp: noPrefix_def)

lemma boundedPrefixes_noPrefix:
  "distinct letters \<Longrightarrow> boundedPrefixes letters n = Inr r \<Longrightarrow> noPrefix r"
  using boundedPrefixes_shape [of letters n r] noPrefix_singles_pairs noPrefix_singles
  by metis

lemma over_singles: "set cs \<subseteq> set A \<Longrightarrow> over A (map (\<lambda>c. [c]) cs)"
  by (auto simp: over_def)

lemma over_pairs: "set ps \<subseteq> set A \<Longrightarrow> set ls \<subseteq> set A \<Longrightarrow> over A (take k (pairs ps ls))"
  by (auto simp: over_def dest!: pairs_take_set)

lemma over_append: "over A xs \<Longrightarrow> over A ys \<Longrightarrow> over A (xs @ ys)"
  by (auto simp: over_def)

lemma ceil25:
  fixes n :: int
  assumes "26 < n" "n \<le> 676"
  defines "e \<equiv> - ((- (n - 26)) div 25)"
  shows "1 \<le> e" "e \<le> 26" "n - 26 \<le> 25 * e"
  using assms by (simp_all add: e_def)

lemma boundedPrefixes_count:
  assumes len: "length letters = 26" and d: "distinct letters"
      and n: "1 \<le> n" "n \<le> 676"
  shows "\<exists>r. boundedPrefixes letters n = Inr r \<and> length r = nat n \<and> distinct r \<and> over letters r"
proof (cases "n \<le> 26")
  case True
  then have "boundedPrefixes letters n = Inr (map (\<lambda>c. [c]) (take (nat n) letters))"
    using n by (simp add: boundedPrefixes_def)
  moreover have "length (map (\<lambda>c. [c]) (take (nat n) letters)) = nat n"
    using True len by simp
  moreover have "distinct (map (\<lambda>c. [c]) (take (nat n) letters))"
    using d by (simp add: distinct_map inj_on_def)
  moreover have "over letters (map (\<lambda>c. [c]) (take (nat n) letters))"
    by (rule over_singles) (rule set_take_subset)
  ultimately show ?thesis by blast
next
  case False
  define e where "e = - ((- (n - 26)) div 25)"
  have e: "1 \<le> e" "e \<le> 26" "n - 26 \<le> 25 * e"
    using ceil25 [of n] False n by (simp_all add: e_def)
  define k where "k = nat (n - (26 - e))"
  have k: "0 < k" "k \<le> nat e * 26" using e False by (simp_all add: k_def)
  let ?s = "map (\<lambda>c. [c]) (drop (nat e) letters)"
  let ?l = "take k (pairs (take (nat e) letters) letters)"
  have "forI (take (nat e) letters) letters k [] = ?l"
    using k(1) forI_char [of "[]" k] by simp
  then have r: "boundedPrefixes letters n = Inr (?s @ ?l)"
    using False n e(2) by (simp add: boundedPrefixes_def Let_def e_def k_def)
  have lp: "length (pairs (take (nat e) letters) letters) = nat e * 26"
    using e len by (auto simp: length_pairs min_def)
  have "length (?s @ ?l) = nat n"
  proof -
    have "nat e \<le> 26" using e by simp
    moreover have "length ?l = k" using lp k by simp
    moreover have "length ?s = 26 - nat e" using len by simp
    moreover have "26 - nat e + k = nat n" using e False by (simp add: k_def)
    ultimately show ?thesis by simp
  qed
  moreover have "distinct (?s @ ?l)"
  proof -
    have "distinct ?s" using d by (simp add: distinct_map inj_on_def)
    moreover have "distinct ?l" using d by (simp add: distinct_pairs)
    moreover have "set ?s \<inter> set ?l = {}" by (auto dest!: pairs_take_set)
    ultimately show ?thesis by simp
  qed
  moreover have "over letters (?s @ ?l)"
    by (intro over_append over_singles over_pairs set_take_subset set_drop_subset subset_refl)
  ultimately show ?thesis using r by blast
qed

lemma whileShort_empty_aux:
  assumes "whileShort letters n result len = Some y"
  shows "\<not> (letters = [] \<and> result = [] \<and> 0 < len \<and> 0 < n)"
proof (rule whileShort.raw_induct
    [where P = "\<lambda>letters n result len y. \<not> (letters = [] \<and> result = [] \<and> 0 < len \<and> 0 < n)",
     OF _ assms])
  fix f :: "string \<Rightarrow> nat \<Rightarrow> string list \<Rightarrow> nat \<Rightarrow> string list option"
    and letters n result len y
  assume IH: "\<And>letters n result len y. f letters n result len = Some y \<Longrightarrow>
                \<not> (letters = [] \<and> result = [] \<and> 0 < len \<and> 0 < n)"
    and eq: "(if length result < n
              then f letters n (generateCombinations letters n [] len result) (len + 1)
              else Some result) = Some y"
  show "\<not> (letters = [] \<and> result = [] \<and> 0 < len \<and> 0 < n)"
  proof
    assume a: "letters = [] \<and> result = [] \<and> 0 < len \<and> 0 < n"
    then obtain d where "len = Suc d" by (cases len) auto
    with a have "generateCombinations letters n [] len result = []" by simp
    with eq a have "f letters n [] (len + 1) = Some y" by simp
    from IH [OF this] a show False by simp
  qed
qed

lemma whileShort_empty: "0 < n \<Longrightarrow> 0 < len \<Longrightarrow> whileShort [] n [] len = None"
  using whileShort_empty_aux [of "[]" n "[]" len] by (cases "whileShort [] n [] len") auto

lemma gup_b_empty: "0 < n \<Longrightarrow> generateUniquePrefixes_b [] n = None"
  by (simp add: generateUniquePrefixes_b_def whileShort_empty)

lemma gup_b_ok:
  assumes "1 \<le> n" "A \<noteq> []" "distinct A"
  shows "\<exists>r. generateUniquePrefixes_b A n = Some (Inr r) \<and> length r = nat n \<and> distinct r \<and> over A r"
proof -
  have "levels A 1 = []" by (simp add: levels_def)
  with whileShort_levels [of A 1 "[]" "nat n"] assms
  obtain m where m: "whileShort A (nat n) [] 1 = Some (take (nat n) (levels A m))"
      "nat n \<le> length (levels A m)"
    by auto
  let ?r = "take (nat n) (levels A m)"
  have "generateUniquePrefixes_b A n = Some (Inr ?r)"
    using assms(1) m(1) by (simp add: generateUniquePrefixes_b_def)
  moreover have "length ?r = nat n" using m(2) by simp
  moreover have "distinct ?r" using assms(3) by (simp add: distinct_levels)
  moreover have "over A ?r"
    by (auto simp: over_def dest!: in_set_takeD dest: levels_length levels_set)
  ultimately show ?thesis by blast
qed

section \<open>Lemmas about the key handler\<close>

text \<open>
  The table of \<open>lowerChar\<close> and the description by code unit numbers agree: the
  capitals of the table are exactly the code units of the three ranges, each entry
  pairs a capital with the code unit 32 above it, and no small letter is a capital.
\<close>

lemma table_capital: "list_all (\<lambda>(u, l). isCapital u \<and> smallOf u = l \<and> \<not> isCapital l) (zip capitals smalls)"
  by code_simp

lemma table_codes:
  "map fst (zip capitals smalls) = map char_of ([65..<91] @ [192..<215] @ [216..<223] :: nat list)"
  by code_simp

lemma table_distinct: "distinct (map fst (zip capitals smalls))"
  by code_simp

lemma isCapital_in_table: "isCapital c \<Longrightarrow> c \<in> set (map fst (zip capitals smalls))"
proof -
  assume "isCapital c"
  then have "(of_char c :: nat) \<in> set ([65..<91] @ [192..<215] @ [216..<223])"
    unfolding isCapital_def Let_def set_append set_upt Un_iff atLeastLessThan_iff by arith
  then have "char_of (of_char c :: nat) \<in> set (map char_of ([65..<91] @ [192..<215] @ [216..<223] :: nat list))"
    unfolding set_map by (rule imageI)
  then have "c \<in> set (map char_of ([65..<91] @ [192..<215] @ [216..<223] :: nat list))"
    by (simp only: char_of_char)
  then show ?thesis by (simp only: table_codes)
qed

lemma lowerChar_small: "lowerChar c = (if isCapital c then smallOf c else c)"
proof (cases "isCapital c")
  case True
  then obtain l where l: "(c, l) \<in> set (zip capitals smalls)"
    using isCapital_in_table [of c] by auto
  then have "map_of (zip capitals smalls) c = Some l"
    using table_distinct by simp
  moreover have "smallOf c = l"
    using l table_capital by (auto simp: list_all_iff)
  ultimately show ?thesis using True by (simp add: lowerChar_def)
next
  case False
  have "c \<notin> fst ` set (zip capitals smalls)"
  proof
    assume "c \<in> fst ` set (zip capitals smalls)"
    then obtain l where "(c, l) \<in> set (zip capitals smalls)" by auto
    with table_capital have "isCapital c" by (auto simp: list_all_iff)
    with False show False by simp
  qed
  then have "map_of (zip capitals smalls) c = None" by (simp add: map_of_eq_None_iff)
  with False show ?thesis by (simp add: lowerChar_def)
qed

lemma small_not_capital: "isCapital c \<Longrightarrow> \<not> isCapital (smallOf c)"
proof -
  assume c: "isCapital c"
  then obtain l where l: "(c, l) \<in> set (zip capitals smalls)"
    using isCapital_in_table [of c] by auto
  with table_capital have "smallOf c = l \<and> \<not> isCapital l" by (auto simp: list_all_iff)
  then show ?thesis by simp
qed

lemma lowerChar_idem: "lowerChar (lowerChar c) = lowerChar c"
  by (simp add: lowerChar_small small_not_capital)

lemma sameLetter_lower: "sameLetter a b \<Longrightarrow> lowerChar a = lowerChar b"
  by (auto simp: sameLetter_def lowerChar_small small_not_capital)

lemma toLowerCase_lowered: "toLowerCase k = lowered k"
  by (simp add: toLowerCase_def lowered_def lowerChar_small)

lemma toLowerCase_idem: "toLowerCase (toLowerCase k) = toLowerCase k"
  by (simp add: toLowerCase_def lowerChar_idem)

lemma handler_lower:
  "keydownHandlerWith u env w ci (toLowerCase k) = keydownHandlerWith u env w ci k"
  by (simp add: keydownHandlerWith_def toLowerCase_idem)

lemma handler_idle:
  "\<not> hintMode w \<Longrightarrow> keydownHandlerWith u env w ci k =
     \<lparr>after = w, input = ci, registered = True, calls = [], activated = None, thrown = None\<rparr>"
  by (simp add: keydownHandlerWith_def)

lemma handler_escape:
  "hintMode w \<Longrightarrow> toLowerCase k = ''escape'' \<Longrightarrow> keydownHandlerWith u env w ci k =
     \<lparr>after = removeHints w, input = ci, registered = False,
      calls = [PreventDefault, StopPropagation], activated = None, thrown = None\<rparr>"
  by (simp add: keydownHandlerWith_def)

lemma handler_nomatch:
  assumes "hintMode w" "toLowerCase k \<noteq> ''escape''"
      and "\<forall>(hint, el) \<in> set (hintElements w). \<not> startsWith hint (ci @ toLowerCase k)"
  shows "keydownHandlerWith u env w ci k =
     \<lparr>after = removeHints w, input = ci @ toLowerCase k, registered = False,
      calls = [PreventDefault, StopPropagation], activated = None, thrown = None\<rparr>"
proof -
  have "filter (\<lambda>(hint, _). startsWith hint (ci @ toLowerCase k)) (hintElements w) = []"
    using assms(3) by (auto simp: filter_empty_conv)
  then show ?thesis using assms(1,2) by (simp add: keydownHandlerWith_def Let_def)
qed

lemma handler_input:
  "hintMode w \<Longrightarrow> toLowerCase k \<noteq> ''escape'' \<Longrightarrow>
   input (keydownHandlerWith u env w ci k) = ci @ toLowerCase k"
  by (simp add: keydownHandlerWith_def Let_def split: option.splits sum.splits)

lemma find_SomeD: "find P xs = Some x \<Longrightarrow> x \<in> set xs \<and> P x"
  by (induction xs) (auto split: if_splits)

lemma handler_activated:
  "activated (keydownHandlerWith u env w ci k) = Some (w0, el) \<Longrightarrow>
     hintMode w \<and> w0 = removeHints w \<and> after (keydownHandlerWith u env w ci k) = removeHints w \<and>
     (ci @ toLowerCase k, el) \<in> set (hintElements w) \<and> toLowerCase k \<noteq> ''escape''"
  by (auto simp: keydownHandlerWith_def Let_def split: if_splits option.splits sum.splits
           dest!: find_SomeD)

lemma handler_terminated:
  "hintMode w \<Longrightarrow> \<not> hintMode (after (keydownHandlerWith u env w ci k)) \<Longrightarrow>
   after (keydownHandlerWith u env w ci k) = removeHints w"
  by (auto simp: keydownHandlerWith_def Let_def removeHints_def split: if_splits option.splits sum.splits)

lemma handler_thrown:
  "thrown (keydownHandlerWith u env w ci k) = Some e \<Longrightarrow>
   after (keydownHandlerWith u env w ci k) = removeHints w \<and>
   activated (keydownHandlerWith u env w ci k) \<noteq> None"
  by (auto simp: keydownHandlerWith_def Let_def split: if_splits option.splits sum.splits)

lemma handler_mode:
  "\<not> hintMode w \<Longrightarrow> \<not> hintMode (after (keydownHandlerWith u env w ci k))"
  by (simp add: handler_idle)

lemma deliver_once:
  assumes h: "h = keydownHandlerWith u env"
  shows "deliver h k ls w = (kept, w', rs) \<Longrightarrow>
     length (activations rs) \<le> 1 \<and>
     (activations rs \<noteq> [] \<longrightarrow> \<not> hintMode w') \<and>
     (\<not> hintMode w \<longrightarrow> \<not> hintMode w' \<and> activations rs = [])"
proof (induction ls arbitrary: w kept w' rs)
  case Nil
  then show ?case by (simp add: activations_def)
next
  case (Cons ci ls)
  let ?r = "h w ci k"
  obtain kept0 w0 rs0 where d: "deliver h k ls (after ?r) = (kept0, w0, rs0)"
    by (cases "deliver h k ls (after ?r)") auto
  with Cons.prems have rs: "rs = ?r # rs0" and w': "w' = w0"
    by (simp_all add: Let_def)
  note IH = Cons.IH [OF d]
  show ?case
  proof (cases "activated ?r")
    case None
    then have a: "activations rs = activations rs0"
      by (simp add: rs activations_def map_filter_simps)
    have "\<not> hintMode w \<Longrightarrow> \<not> hintMode (after ?r)" by (simp add: h handler_idle)
    with IH a show ?thesis by (auto simp: w')
  next
    case (Some p)
    obtain wd el where p: "p = (wd, el)" by (cases p)
    from Some have act: "activated (keydownHandlerWith u env w ci k) = Some (wd, el)"
      by (simp add: h p)
    from handler_activated [OF act] have m: "hintMode w" "\<not> hintMode (after ?r)"
      by (simp_all add: h removeHints_def)
    with IH have "activations rs0 = []" "\<not> hintMode w0" by simp_all
    with Some m show ?thesis
      by (simp add: rs w' activations_def map_filter_simps)
  qed
qed

lemma keydown_once:
  assumes h: "h = keydownHandlerWith u env"
  shows "keydown h k w = (w', rs) \<Longrightarrow>
     length (activations rs) \<le> 1 \<and>
     (activations rs \<noteq> [] \<longrightarrow> \<not> hintMode w') \<and>
     (\<not> hintMode w \<longrightarrow> \<not> hintMode w' \<and> activations rs = [])"
  using deliver_once [OF h, of k "listeners w" w]
  by (auto simp: keydown_def Let_def split: prod.splits)

lemma activations_append: "activations (xs @ ys) = activations xs @ activations ys"
  by (simp add: activations_def map_filter_def)

lemma keydowns_once:
  assumes h: "h = keydownHandlerWith u env"
  shows "keydowns h ks w = (w', rs) \<Longrightarrow>
     length (activations rs) \<le> 1 \<and>
     (activations rs \<noteq> [] \<longrightarrow> \<not> hintMode w') \<and>
     (\<not> hintMode w \<longrightarrow> \<not> hintMode w' \<and> activations rs = [])"
proof (induction ks arbitrary: w w' rs)
  case Nil
  then show ?case by (auto simp: activations_def)
next
  case (Cons k ks)
  obtain w1 rs1 where k1: "keydown h k w = (w1, rs1)" by (cases "keydown h k w")
  obtain w2 rs2 where k2: "keydowns h ks w1 = (w2, rs2)" by (cases "keydowns h ks w1")
  from Cons.prems k1 k2 have eq: "w' = w2" "rs = rs1 @ rs2" by simp_all
  note A = keydown_once [OF h k1]
  note B = Cons.IH [OF k2]
  show ?case
    using A B by (auto simp: eq activations_append)
qed

lemma deliver_lower:
  assumes "\<And>w ci. h w ci k1 = h w ci k2"
  shows "deliver h k1 ls w = deliver h k2 ls w"
  using assms by (induction ls arbitrary: w) simp_all

lemma handlers_with:
  "h \<in> handlers env \<Longrightarrow> \<exists>u. h = keydownHandlerWith u env"
  by (auto simp: handlers_def keydownHandler_def keydownHandler_b_def)

lemma handler_done:
  "hintMode w \<Longrightarrow> \<not> hintMode (after (keydownHandlerWith u env w ci k)) \<Longrightarrow>
   thrown (keydownHandlerWith u env w ci k) = None \<Longrightarrow>
   \<not> registered (keydownHandlerWith u env w ci k)"
  by (auto simp: keydownHandlerWith_def Let_def removeHints_def
           split: if_splits option.splits sum.splits)

lemma emphasize_text:
  "startsWith (textContent m) ci \<Longrightarrow> textContent (emphasize c ci m) = textContent m"
  by (auto simp: emphasize_def textContent_def startsWith_def Let_def prefix_def)

lemma updateMarkers_b_texts:
  "map textContent (updateMarkers_b ci ms) = filter (\<lambda>t. startsWith t ci) (map textContent ms)"
  by (induction ms) (simp_all add: emphasize_text)

lemma updateMarkers_b_children:
  "m' \<in> set (updateMarkers_b ci ms) \<Longrightarrow>
   \<exists>m \<in> set ms. startsWith (textContent m) ci \<and> m' = emphasize ''click-hint-matched'' ci m"
  by (induction ms) (auto split: if_splits)

lemma updateMarkers_texts:
  "map textContent (updateMarkers ci ms) = map textContent ms"
  by (induction ms) (simp_all add: emphasize_text)

lemma handler_partial:
  assumes "hintMode w" "toLowerCase k \<noteq> ''escape''"
      and "\<exists>(hint, el) \<in> set (hintElements w). startsWith hint (ci @ toLowerCase k)"
      and "\<forall>(hint, el) \<in> set (hintElements w). hint \<noteq> ci @ toLowerCase k"
  shows "keydownHandlerWith u env w ci k =
     \<lparr>after = w\<lparr>markers := u (ci @ toLowerCase k) (markers w)\<rparr>, input = ci @ toLowerCase k,
      registered = True, calls = [PreventDefault, StopPropagation], activated = None,
      thrown = None\<rparr>"
proof -
  let ?pm = "filter (\<lambda>(hint, _). startsWith hint (ci @ toLowerCase k)) (hintElements w)"
  have ne: "?pm \<noteq> []" using assms(3) by (auto simp: filter_empty_conv)
  have "find (\<lambda>(hint, _). hint = ci @ toLowerCase k) ?pm = None"
    using assms(4) by (auto simp: find_None_iff)
  with ne assms(1,2) show ?thesis by (simp add: keydownHandlerWith_def Let_def)
qed

lemma forEachElement_markers:
  "markers (forEachElement mk ps w) = markers w @ map (\<lambda>(el, hint). mk el hint) ps"
  by (induction mk ps w rule: forEachElement.induct) simp_all

lemma forEachElement_mode:
  "hintMode (forEachElement mk ps w) = hintMode w \<and>
   listeners (forEachElement mk ps w) = listeners w"
  by (induction mk ps w rule: forEachElement.induct) simp_all

lemma sameLetters_lower: "list_all2 sameLetter k1 k2 \<Longrightarrow> toLowerCase k1 = toLowerCase k2"
  by (induction rule: list_all2_induct) (simp_all add: toLowerCase_def sameLetter_lower)

lemma capital_sameLetter: "isCapital u \<Longrightarrow> list_all2 sameLetter [u] [smallOf u]"
  by (simp add: sameLetter_def)

lemma handler_same_lower:
  assumes h: "h \<in> handlers env" and k: "toLowerCase k1 = toLowerCase k2"
  shows "h w ci k1 = h w ci k2"
proof -
  from h obtain u where u: "h = keydownHandlerWith u env" using handlers_with by blast
  have "h w ci k1 = h w ci (toLowerCase k1)" by (simp add: u handler_lower)
  also have "\<dots> = h w ci k2" by (simp add: k u handler_lower)
  finally show ?thesis .
qed

lemma keydown_same_lower:
  assumes h: "h \<in> handlers env" and k: "toLowerCase k1 = toLowerCase k2"
  shows "keydown h k1 w = keydown h k2 w"
proof -
  have "deliver h k1 (listeners w) w = deliver h k2 (listeners w) w"
    by (rule deliver_lower) (rule handler_same_lower [OF h k])
  then show ?thesis by (simp add: keydown_def)
qed

lemma empty_hintChars_start:
  "hintChars st = [] \<Longrightarrow> \<not> hintMode w \<Longrightarrow> clickable env \<noteq> [] \<Longrightarrow>
   showHints_b env st w = None"
proof -
  assume a: "hintChars st = []" "\<not> hintMode w" "clickable env \<noteq> []"
  then have "0 < int (length (clickable env))" by (cases "clickable env") auto
  from gup_b_empty [OF this] a show ?thesis by (simp add: showHints_b_def)
qed

section \<open>The example session\<close>

lemma session3_eq: "session3 =
  \<lparr>hintMode = True,
   hintElements = [(''a'', button), (''b'', externalLink), (''c'', percentLink)],
   markers = [newMarker ''hint-marker'' ''left'' ''top'' ''a'' button,
              newMarker ''hint-marker'' ''left'' ''top'' ''b'' externalLink,
              newMarker ''hint-marker'' ''left'' ''top'' ''c'' percentLink],
   listeners = [[]]\<rparr>"
  by (simp add: session3_def showHints_def page3_def page_def idle_def generateUniquePrefixes_def
      boundedPrefixes_def)

lemma session3_c:
  "keydownHandler page3 session3 [] ''c'' =
     \<lparr>after = idle\<lparr>listeners := [[]]\<rparr>, input = ''c'', registered = True,
      calls = [PreventDefault, StopPropagation],
      activated = Some (idle\<lparr>listeners := [[]]\<rparr>, percentLink), thrown = Some URIError\<rparr>"
  by (simp add: session3_eq keydownHandler_def keydownHandlerWith_def toLowerCase_def
      lowerChar_def capitals_def smalls_def startsWith_def removeHints_def dispatchElementAction_def percentLink_def
      page3_def page_def exampleDecodeURI_def idle_def Let_def)

lemma session3_a:
  "keydownHandler page3 session3 [] ''a'' =
     \<lparr>after = idle\<lparr>listeners := [[]]\<rparr>, input = ''a'', registered = False,
      calls = [PreventDefault, StopPropagation, Click button],
      activated = Some (idle\<lparr>listeners := [[]]\<rparr>, button), thrown = None\<rparr>"
  by (simp add: session3_eq keydownHandler_def keydownHandlerWith_def toLowerCase_def
      lowerChar_def capitals_def smalls_def startsWith_def removeHints_def dispatchElementAction_def button_def
      page3_def page_def exampleDecodeURI_def idle_def Let_def)

lemma session3_escape:
  "keydownHandler page3 session3 [] ''Escape'' =
     \<lparr>after = idle\<lparr>listeners := [[]]\<rparr>, input = [], registered = False,
      calls = [PreventDefault, StopPropagation], activated = None, thrown = None\<rparr>"
  by (simp add: session3_eq keydownHandler_def keydownHandlerWith_def toLowerCase_def
      lowerChar_def capitals_def smalls_def removeHints_def idle_def)

lemma labels27:
  "generateUniquePrefixes 27 =
     Inr (map (\<lambda>c. [c]) ''bcdefghijklmnopqrstuvwxyz'' @ [''aa'', ''ab''])"
  by (simp add: generateUniquePrefixes_def boundedPrefixes_def)

lemma session27_labels:
  "map fst (hintElements session27) = map (\<lambda>c. [c]) ''bcdefghijklmnopqrstuvwxyz'' @ [''aa'', ''ab''] \<and>
   map textContent (markers session27) = map (\<lambda>c. [c]) ''bcdefghijklmnopqrstuvwxyz'' @ [''aa'', ''ab''] \<and>
   hintMode session27"
  by (simp add: session27_def showHints_def page27_def page_def idle_def labels27
      numeral_eq_Suc newMarker_def textContent_def)

lemma session3_c_b:
  "keydownHandler_b page3 session3 [] ''c'' = keydownHandler page3 session3 [] ''c''"
  by (simp add: session3_eq keydownHandler_def keydownHandler_b_def keydownHandlerWith_def
      toLowerCase_def lowerChar_def capitals_def smalls_def startsWith_def Let_def)

section \<open>The claims\<close>

text \<open>
  Claim C8. At most one hint session is active: a start request made while a session
  is collecting (\<open>hintMode\<close> is set) leaves \<open>showHints\<close> at once, in \<open>src/main.ts\<close> and
  in the snapshots of \<open>part_000\<close> alike: no label is generated, no marker created, no
  listener registered, the world is the same afterwards and nothing is thrown. The
  running session therefore goes on exactly as it would have.
\<close>

theorem start_while_collecting_noop:
  "hintMode w \<Longrightarrow> showHints env w = (w, None) \<and> showHints_b env st w = Some (w, None)"
  by (simp add: showHints_def showHints_b_def)

theorem start_while_collecting_noop_witness:
  "hintMode session3 \<and> showHints page27 session3 = (session3, None)
     \<and> showHints_b page27 DEFAULT_SETTINGS session3 = Some (session3, None)"
proof -
  have h: "hintMode session3" by (simp add: session3_eq)
  show ?thesis using h start_while_collecting_noop [OF h] by simp
qed

text \<open>
  Claim C9. Key matching does not see the case of a letter. Two key names that are
  the same up to the case of their letters (position by position the characters are
  equal, or one is a capital letter and the other its small letter, such as \<open>B\<close> and
  \<open>b\<close>) make either handler return the same result from every world and every
  \<open>currentInput\<close>: the same world and markers, the same input, the same calls, the same
  activation and the same exception; hence the whole key event has the same
  outcome. In particular a capital letter and its small letter do.
\<close>

theorem key_case_insensitive:
  "h \<in> handlers env \<Longrightarrow> list_all2 sameLetter k1 k2 \<Longrightarrow>
   h w ci k1 = h w ci k2 \<and> keydown h k1 w = keydown h k2 w \<and>
   (isCapital u \<longrightarrow> h w ci [u] = h w ci [smallOf u] \<and> keydown h [u] w = keydown h [smallOf u] w)"
proof -
  assume h: "h \<in> handlers env" and k: "list_all2 sameLetter k1 k2"
  note l = sameLetters_lower [OF k]
  have "h w ci [u] = h w ci [smallOf u] \<and> keydown h [u] w = keydown h [smallOf u] w"
    if "isCapital u"
    using handler_same_lower [OF h sameLetters_lower [OF capital_sameLetter [OF that]]]
      keydown_same_lower [OF h sameLetters_lower [OF capital_sameLetter [OF that]]]
    by simp
  then show ?thesis
    using handler_same_lower [OF h l] keydown_same_lower [OF h l] by simp
qed

theorem key_case_insensitive_witness:
  "keydownHandler page3 \<in> handlers page3 \<and> list_all2 sameLetter ''B'' ''b'' \<and>
   keydownHandler page3 session3 [] ''B'' = keydownHandler page3 session3 [] ''b'' \<and>
   keydown (keydownHandler page3) ''B'' session3 = keydown (keydownHandler page3) ''b'' session3 \<and>
   activations (snd (keydown (keydownHandler page3) ''B'' session3)) = [externalLink] \<and>
   isCapital (CHR 0xC9) \<and> smallOf (CHR 0xC9) = CHR 0xE9 \<and>
   keydownHandler page3 session3 [] [CHR 0xC9] = keydownHandler page3 session3 [] [CHR 0xE9]"
proof -
  have h: "keydownHandler page3 \<in> handlers page3" by (simp add: handlers_def)
  have k: "list_all2 sameLetter ''B'' ''b''" by code_simp
  have c: "isCapital (CHR 0xC9)" by code_simp
  have s: "smallOf (CHR 0xC9) = CHR 0xE9" by code_simp
  have a: "activations (snd (keydown (keydownHandler page3) ''b'' session3)) = [externalLink]"
    by (simp add: keydown_def session3_eq keydownHandler_def keydownHandlerWith_def
        toLowerCase_def lowerChar_def capitals_def smalls_def startsWith_def removeHints_def
        dispatchElementAction_def externalLink_def page3_def page_def activations_def
        map_filter_simps Let_def)
  note t = key_case_insensitive [OF h k, of session3 "[]" "CHR 0xC9"]
  from t have t1: "keydownHandler page3 session3 [] ''B'' = keydownHandler page3 session3 [] ''b''"
    by (rule conjunct1)
  from t have t2: "keydown (keydownHandler page3) ''B'' session3
                   = keydown (keydownHandler page3) ''b'' session3"
    by (elim conjE)
  from t c have t3: "keydownHandler page3 session3 [] [CHR 0xC9]
                     = keydownHandler page3 session3 [] [smallOf (CHR 0xC9)]"
    by (elim conjE) simp
  from a t2 have a': "activations (snd (keydown (keydownHandler page3) ''B'' session3)) = [externalLink]"
    by simp
  from h k t1 t2 a' c s t3 show ?thesis by simp
qed

text \<open>
  Claim C10. While a session is collecting, a key whose lowered name is not \<open>escape\<close>
  has its whole name, every capital letter replaced by its small letter, appended to
  \<open>currentInput\<close> as one string, whatever its length (\<open>Shift\<close> appends \<open>shift\<close>,
  \<open>ArrowDown\<close> appends \<open>arrowdown\<close>). If no live label starts with the input so
  extended, the session ends at once as a no-match: all markers are removed,
  \<open>hintMode\<close> and the label assignment are reset, the listener is removed, nothing is
  activated and nothing is thrown.
\<close>

theorem key_name_appended_whole:
  "h \<in> handlers env \<Longrightarrow> hintMode w \<Longrightarrow> lowered k \<noteq> ''escape'' \<Longrightarrow>
   input (h w ci k) = ci @ lowered k \<and>
   ((\<forall>(hint, el) \<in> set (hintElements w). \<not> startsWith hint (ci @ lowered k)) \<longrightarrow>
      after (h w ci k) = removeHints w \<and> markers (after (h w ci k)) = [] \<and>
      \<not> hintMode (after (h w ci k)) \<and> \<not> registered (h w ci k) \<and>
      activated (h w ci k) = None \<and> thrown (h w ci k) = None)"
proof -
  assume h: "h \<in> handlers env" and m: "hintMode w" and k: "lowered k \<noteq> ''escape''"
  from h obtain u where u: "h = keydownHandlerWith u env" using handlers_with by blast
  have l: "toLowerCase k = lowered k" by (rule toLowerCase_lowered)
  from k have k': "toLowerCase k \<noteq> ''escape''" by (simp add: l)
  have "input (h w ci k) = ci @ lowered k"
    using m k' by (simp add: u handler_input l)
  moreover have "after (h w ci k) = removeHints w \<and> markers (after (h w ci k)) = [] \<and>
      \<not> hintMode (after (h w ci k)) \<and> \<not> registered (h w ci k) \<and>
      activated (h w ci k) = None \<and> thrown (h w ci k) = None"
    if n: "\<forall>(hint, el) \<in> set (hintElements w). \<not> startsWith hint (ci @ lowered k)"
  proof -
    from n have "\<forall>(hint, el) \<in> set (hintElements w). \<not> startsWith hint (ci @ toLowerCase k)"
      by (simp add: l)
    from handler_nomatch [OF m k' this, of u env] show ?thesis
      by (simp add: u removeHints_def)
  qed
  ultimately show ?thesis by blast
qed

theorem key_name_appended_whole_witness:
  "keydownHandler page3 \<in> handlers page3 \<and> hintMode session3 \<and>
   lowered ''Shift'' = ''shift'' \<and> lowered ''ArrowDown'' = ''arrowdown'' \<and>
   lowered ''Enter'' = ''enter'' \<and>
   input (keydownHandler page3 session3 [] ''Shift'') = ''shift'' \<and>
   input (keydownHandler page3 session3 ''x'' ''ArrowDown'') = ''xarrowdown'' \<and>
   input (keydownHandler page3 session3 [] ''Enter'') = ''enter'' \<and>
   after (keydownHandler page3 session3 [] ''Shift'') = idle\<lparr>listeners := [[]]\<rparr> \<and>
   \<not> registered (keydownHandler page3 session3 [] ''Shift'') \<and>
   activated (keydownHandler page3 session3 [] ''Shift'') = None"
proof -
  have h: "keydownHandler page3 \<in> handlers page3" by (simp add: handlers_def)
  have m: "hintMode session3" by (simp add: session3_eq)
  have l1: "lowered ''Shift'' = ''shift''" by code_simp
  have l2: "lowered ''ArrowDown'' = ''arrowdown''" by code_simp
  have l3: "lowered ''Enter'' = ''enter''" by code_simp
  have k1: "lowered ''Shift'' \<noteq> ''escape''" by (simp add: l1)
  have k2: "lowered ''ArrowDown'' \<noteq> ''escape''" by (simp add: l2)
  have k3: "lowered ''Enter'' \<noteq> ''escape''" by (simp add: l3)
  have n: "\<forall>(hint, el) \<in> set (hintElements session3). \<not> startsWith hint ([] @ lowered ''Shift'')"
    by (simp add: session3_eq l1 startsWith_def)
  have r: "removeHints session3 = idle\<lparr>listeners := [[]]\<rparr>"
    by (simp add: session3_eq removeHints_def idle_def)
  note t1 = key_name_appended_whole [OF h m k1, of "[]"]
  note t2 = key_name_appended_whole [OF h m k2, of "''x''", THEN conjunct1]
  note t3 = key_name_appended_whole [OF h m k3, of "[]", THEN conjunct1]
  from t1 n have a: "input (keydownHandler page3 session3 [] ''Shift'') = ''shift'' \<and>
      after (keydownHandler page3 session3 [] ''Shift'') = idle\<lparr>listeners := [[]]\<rparr> \<and>
      \<not> registered (keydownHandler page3 session3 [] ''Shift'') \<and>
      activated (keydownHandler page3 session3 [] ''Shift'') = None"
    by (simp add: l1 r)
  from t2 have b: "input (keydownHandler page3 session3 ''x'' ''ArrowDown'') = ''xarrowdown''"
    by (simp add: l2)
  from t3 have c: "input (keydownHandler page3 session3 [] ''Enter'') = ''enter''"
    by (simp add: l3)
  from h m l1 l2 l3 a b c show ?thesis by simp
qed

text \<open>A capital key meets the label of its small letter, beyond Basic Latin too.\<close>

lemma capital_key_matches_small_label:
  "showHints_b (page [button]) (DEFAULT_SETTINGS\<lparr>hintChars := [CHR 0xE9]\<rparr>) idle = Some (w, None) \<Longrightarrow>
   map fst (hintElements w) = [[CHR 0xE9]] \<and>
   activations (snd (keydown (keydownHandler_b (page [button])) [CHR 0xC9] w)) = [button]"
  by (auto simp: showHints_b_def page_def idle_def generateUniquePrefixes_b_def
      whileShort.simps keydown_def keydownHandler_b_def keydownHandlerWith_def toLowerCase_def
      lowerChar_def capitals_def smalls_def startsWith_def removeHints_def
      dispatchElementAction_def button_def activations_def map_filter_simps Let_def)

text \<open>
  Claim C1. The claim asks that no label returned by the label generator is a prefix
  of another one, also when there are more labels than letters. The generalised
  generator of snapshot B breaks this: for three labels over the alphabet \<open>ab\<close> it
  returns \<open>a\<close>, \<open>b\<close>, \<open>aa\<close>, and for 27 labels over the default alphabet it returns
  the 26 letters followed by \<open>aa\<close>; in both \<open>a\<close> is a proper prefix of \<open>aa\<close>. The theorem
  evaluates the generator at these two inputs. (The bounded generator of
  \<open>src/main.ts\<close> and snapshot A keeps the property: \<open>boundedPrefixes_noPrefix\<close>.)
\<close>

theorem generalised_labels_share_prefix:
  "generateUniquePrefixes_b ''ab'' 3 = Some (Inr [''a'', ''b'', ''aa'']) \<and>
   ''a'' \<noteq> ''aa'' \<and> prefix ''a'' ''aa'' \<and>
   generateUniquePrefixes_b (hintChars DEFAULT_SETTINGS) 27 =
     Some (Inr (map (\<lambda>c. [c]) ''abcdefghijklmnopqrstuvwxyz'' @ [''aa'']))"
  by (simp add: generateUniquePrefixes_b_def whileShort.simps DEFAULT_SETTINGS_def)

lemma generalised_labels_not_noPrefix: "\<not> noPrefix [''a'', ''b'', ''aa'']"
  by (simp add: noPrefix_def)

text \<open>
  What the shared prefix does in a session of snapshot B: with the alphabet \<open>ab\<close>
  and three candidates the labels are \<open>a\<close>, \<open>b\<close>, \<open>aa\<close>; the first key \<open>a\<close>
  activates the first candidate and ends the session, so the keys \<open>a\<close>, \<open>a\<close> never
  reach the candidate labelled \<open>aa\<close>.
\<close>

lemma generalised_label_unreachable:
  "showHints_b page3 (DEFAULT_SETTINGS\<lparr>hintChars := ''ab''\<rparr>) idle = Some (w, None) \<Longrightarrow>
   map fst (hintElements w) = [''a'', ''b'', ''aa''] \<and>
   activations (snd (keydowns (keydownHandler_b page3) [''a'', ''a''] w)) = [button]"
  by (auto simp: showHints_b_def page3_def page_def idle_def generateUniquePrefixes_b_def
      whileShort.simps keydown_def keydownHandler_b_def keydownHandlerWith_def toLowerCase_def
      lowerChar_def capitals_def smalls_def startsWith_def removeHints_def dispatchElementAction_def button_def
      activations_def map_filter_simps Let_def)

text \<open>
  Claim C2, as stated, fails: the generator of \<open>src/main.ts\<close> throws for 677 labels,
  the generator of snapshot A returns two labels when three are asked over the
  alphabet \<open>ab\<close>, and the generator of snapshot B never returns for the empty
  alphabet.
\<close>

theorem label_count_counterexample:
  "generateUniquePrefixes 677 = Inl CapacityExceeded \<and>
   generateUniquePrefixes_a ''ab'' 3 = Inr [''a'', ''b''] \<and>
   generateUniquePrefixes_b [] 1 = None"
  by (simp add: generateUniquePrefixes_def generateUniquePrefixes_a_def boundedPrefixes_def
      gup_b_empty)

text \<open>
  Claim C2, amended. For every \<open>n \<ge> 1\<close> and every non-empty alphabet \<open>A\<close> of distinct
  characters the generalised generator of snapshot B returns, and returns exactly \<open>n\<close>
  pairwise distinct non-empty strings over \<open>A\<close>, with no upper bound on \<open>n\<close>. The
  bounded generator returns exactly \<open>n\<close> pairwise distinct non-empty strings over its
  letters for \<open>1 \<le> n \<le> 676\<close> (in \<open>src/main.ts\<close> over the letters a..z, in snapshot A
  over an alphabet of 26 distinct characters) and throws for \<open>n > 676\<close>.
\<close>

theorem label_count:
  "(1 \<le> n \<and> A \<noteq> [] \<and> distinct A \<longrightarrow>
      (\<exists>r. generateUniquePrefixes_b A n = Some (Inr r) \<and>
           length r = nat n \<and> distinct r \<and> over A r)) \<and>
   (1 \<le> n \<and> n \<le> 676 \<longrightarrow>
      (\<exists>r. generateUniquePrefixes n = Inr r \<and>
           length r = nat n \<and> distinct r \<and> over ''abcdefghijklmnopqrstuvwxyz'' r)) \<and>
   (1 \<le> n \<and> n \<le> 676 \<and> length A = 26 \<and> distinct A \<longrightarrow>
      (\<exists>r. generateUniquePrefixes_a A n = Inr r \<and>
           length r = nat n \<and> distinct r \<and> over A r)) \<and>
   (676 < n \<longrightarrow> generateUniquePrefixes n = Inl CapacityExceeded \<and>
                generateUniquePrefixes_a A n = Inl CapacityExceeded)"
proof (intro conjI impI)
  assume "1 \<le> n \<and> A \<noteq> [] \<and> distinct A"
  then show "\<exists>r. generateUniquePrefixes_b A n = Some (Inr r) \<and>
           length r = nat n \<and> distinct r \<and> over A r"
    using gup_b_ok [of n A] by simp
next
  assume "1 \<le> n \<and> n \<le> 676"
  then show "\<exists>r. generateUniquePrefixes n = Inr r \<and>
           length r = nat n \<and> distinct r \<and> over ''abcdefghijklmnopqrstuvwxyz'' r"
    unfolding generateUniquePrefixes_def
    by (intro boundedPrefixes_count) simp_all
next
  assume "1 \<le> n \<and> n \<le> 676 \<and> length A = 26 \<and> distinct A"
  then show "\<exists>r. generateUniquePrefixes_a A n = Inr r \<and>
           length r = nat n \<and> distinct r \<and> over A r"
    unfolding generateUniquePrefixes_a_def
    by (intro boundedPrefixes_count) simp_all
next
  assume "676 < n"
  then show "generateUniquePrefixes n = Inl CapacityExceeded"
    by (simp add: generateUniquePrefixes_def boundedPrefixes_def)
next
  assume "676 < n"
  then show "generateUniquePrefixes_a A n = Inl CapacityExceeded"
    by (simp add: generateUniquePrefixes_a_def boundedPrefixes_def)
qed

theorem label_count_witness:
  "(1::int) \<le> 3 \<and> ''ab'' \<noteq> [] \<and> distinct ''ab'' \<and>
   (\<exists>r. generateUniquePrefixes_b ''ab'' 3 = Some (Inr r) \<and> length r = 3 \<and> distinct r \<and> over ''ab'' r) \<and>
   (\<exists>r. generateUniquePrefixes 3 = Inr r \<and> length r = 3 \<and> distinct r \<and>
        over ''abcdefghijklmnopqrstuvwxyz'' r) \<and>
   (676::int) < 677 \<and> generateUniquePrefixes 677 = Inl CapacityExceeded"
  using label_count [of 3 "''ab''"] label_count [of 677 "''ab''"] by simp

text \<open>
  What holds of the teardown, for either key handler: over any sequence of key events
  with no start request in between, the activation dispatch is entered at most once;
  it is entered only in a collecting session and only after \<open>removeHints\<close> has run, so
  with all markers removed, \<open>hintMode\<close> reset and the label assignment emptied; it is
  never entered for the Escape key nor when no label starts with the input, and
  these two paths run \<open>removeHints\<close>, throw nothing and remove the listener; when the
  dispatch throws, \<open>removeHints\<close> has run all the same; every call that ends a session
  leaves the world that \<open>removeHints\<close> makes, and removes the listener if the dispatch
  did not throw.
\<close>

lemma activation_once_after_teardown:
  "h \<in> handlers env \<Longrightarrow>
   length (activations (snd (keydowns h ks w))) \<le> 1 \<and>
   (\<forall>w0 el. activated (h w ci k) = Some (w0, el) \<longrightarrow>
      hintMode w \<and> w0 = removeHints w \<and> after (h w ci k) = removeHints w) \<and>
   (toLowerCase k = ''escape'' \<or>
    (\<forall>(hint, el) \<in> set (hintElements w). \<not> startsWith hint (ci @ toLowerCase k)) \<longrightarrow>
      activated (h w ci k) = None \<and> thrown (h w ci k) = None \<and>
      (hintMode w \<longrightarrow> after (h w ci k) = removeHints w \<and> \<not> registered (h w ci k))) \<and>
   (thrown (h w ci k) \<noteq> None \<longrightarrow> after (h w ci k) = removeHints w) \<and>
   (hintMode w \<and> \<not> hintMode (after (h w ci k)) \<longrightarrow>
      after (h w ci k) = removeHints w \<and>
      (thrown (h w ci k) = None \<longrightarrow> \<not> registered (h w ci k))) \<and>
   \<not> hintMode (removeHints w) \<and> markers (removeHints w) = [] \<and> hintElements (removeHints w) = []"
proof -
  assume "h \<in> handlers env"
  then obtain u where u: "h = keydownHandlerWith u env" using handlers_with by blast
  have once: "length (activations (snd (keydowns h ks w))) \<le> 1"
    using keydowns_once [OF u, of ks w] by (cases "keydowns h ks w") simp
  have act: "\<forall>w0 el. activated (h w ci k) = Some (w0, el) \<longrightarrow>
      hintMode w \<and> w0 = removeHints w \<and> after (h w ci k) = removeHints w"
    using handler_activated [of u env w ci k] by (simp add: u)
  have esc: "activated (h w ci k) = None \<and> thrown (h w ci k) = None \<and>
      (hintMode w \<longrightarrow> after (h w ci k) = removeHints w \<and> \<not> registered (h w ci k))"
    if "toLowerCase k = ''escape'' \<or>
        (\<forall>(hint, el) \<in> set (hintElements w). \<not> startsWith hint (ci @ toLowerCase k))"
  proof (cases "hintMode w")
    case False
    then show ?thesis by (simp add: u handler_idle)
  next
    case True
    show ?thesis
    proof (cases "toLowerCase k = ''escape''")
      case e: True
      show ?thesis by (simp add: u handler_escape [OF True e])
    next
      case e: False
      with that have "\<forall>(hint, el) \<in> set (hintElements w). \<not> startsWith hint (ci @ toLowerCase k)"
        by simp
      from handler_nomatch [OF True e this] show ?thesis by (simp add: u)
    qed
  qed
  have thr: "thrown (h w ci k) \<noteq> None \<longrightarrow> after (h w ci k) = removeHints w"
    using handler_thrown [of u env w ci k] by (auto simp: u)
  have fin: "hintMode w \<and> \<not> hintMode (after (h w ci k)) \<longrightarrow>
      after (h w ci k) = removeHints w \<and>
      (thrown (h w ci k) = None \<longrightarrow> \<not> registered (h w ci k))"
    using handler_terminated [of w u env ci k] handler_done [of w u env ci k] by (simp add: u)
  have rh: "\<not> hintMode (removeHints w) \<and> markers (removeHints w) = [] \<and>
            hintElements (removeHints w) = []"
    by (simp add: removeHints_def)
  from once act esc thr fin rh show ?thesis by blast
qed

text \<open>
  What the listener left by a failed dispatch does: it is still registered when the
  next session starts, appends the next key to its old input \<open>c\<close>, finds no label
  starting with \<open>ca\<close> and ends the new session, although \<open>a\<close> is a label of it.
\<close>

lemma stale_listener_ends_next_session:
  "fst (keydown (keydownHandler page3) ''c'' session3) = idle\<lparr>listeners := [''c'']\<rparr> \<and>
   fst (showHints page3 (idle\<lparr>listeners := [''c'']\<rparr>)) = session3\<lparr>listeners := [''c'', []]\<rparr> \<and>
   fst (keydown (keydownHandler page3) ''a'' (session3\<lparr>listeners := [''c'', []]\<rparr>))
     = idle\<lparr>listeners := [[]]\<rparr> \<and>
   activations (snd (keydown (keydownHandler page3) ''a'' (session3\<lparr>listeners := [''c'', []]\<rparr>))) = []"
  by (simp add: keydown_def session3_eq keydownHandler_def keydownHandlerWith_def toLowerCase_def
      lowerChar_def capitals_def smalls_def startsWith_def removeHints_def dispatchElementAction_def percentLink_def
      page3_def page_def exampleDecodeURI_def idle_def Let_def showHints_def
      generateUniquePrefixes_def boundedPrefixes_def activations_def map_filter_simps)

text \<open>
  Claim C3. The claim asks that the state of a session is reset on every termination
  path, also when the activation dispatch throws. On the full-match path the handler
  calls \<open>removeHints\<close>, then the dispatch, then \<open>removeEventListener\<close>; the Escape and
  no-match paths call \<open>removeEventListener\<close> right after \<open>removeHints\<close>. So when the
  dispatch throws (the link text \<open>100%\<close> makes \<open>decodeURI\<close> raise \<open>URIError\<close>), the
  closure stays registered, holding its \<open>currentInput\<close> \<open>c\<close>. It is still there when
  the next session starts: at the key \<open>a\<close>, a label of that session, it extends its
  old input to \<open>ca\<close>, finds no label and ends the session with nothing activated.
  The theorem evaluates the handler of \<open>src/main.ts\<close> (and that of \<open>part_000\<close>, which
  does the same) at this input.
\<close>

theorem failed_dispatch_keeps_listener:
  "keydownHandler page3 session3 [] ''c'' =
     \<lparr>after = idle\<lparr>listeners := [[]]\<rparr>, input = ''c'', registered = True,
      calls = [PreventDefault, StopPropagation],
      activated = Some (idle\<lparr>listeners := [[]]\<rparr>, percentLink), thrown = Some URIError\<rparr> \<and>
   keydownHandler_b page3 session3 [] ''c'' = keydownHandler page3 session3 [] ''c'' \<and>
   registered (keydownHandler page3 session3 [] ''Escape'') = False \<and>
   fst (keydown (keydownHandler page3) ''c'' session3) = idle\<lparr>listeners := [''c'']\<rparr> \<and>
   fst (showHints page3 (idle\<lparr>listeners := [''c'']\<rparr>)) = session3\<lparr>listeners := [''c'', []]\<rparr> \<and>
   fst (keydown (keydownHandler page3) ''a'' (session3\<lparr>listeners := [''c'', []]\<rparr>))
     = idle\<lparr>listeners := [[]]\<rparr> \<and>
   activations (snd (keydown (keydownHandler page3) ''a'' (session3\<lparr>listeners := [''c'', []]\<rparr>))) = []"
  using stale_listener_ends_next_session
  by (simp only: session3_c session3_c_b session3_escape keyResult.simps simp_thms)

text \<open>
  Claim C4. The claim asks that a start request with no candidate aborts cleanly, the
  session not left marked active. \<open>showHints\<close> sets \<open>hintMode\<close> before it calls the label
  generator, so when the generator throws for \<open>n = 0\<close> the flag stays set: the world
  after the failed start has \<open>hintMode = True\<close>, and a later start request on a page
  with candidates returns at once without creating a marker. The theorem evaluates
  \<open>src/main.ts\<close> and snapshot B at a page without clickable elements.
\<close>

theorem start_without_candidates_stays_active:
  "showHints (page []) idle = (idle\<lparr>hintMode := True\<rparr>, Some InvalidArgument) \<and>
   showHints page3 (idle\<lparr>hintMode := True\<rparr>) = (idle\<lparr>hintMode := True\<rparr>, None) \<and>
   showHints_b (page []) DEFAULT_SETTINGS idle = Some (idle\<lparr>hintMode := True\<rparr>, Some InvalidArgument) \<and>
   showHints_b page3 DEFAULT_SETTINGS (idle\<lparr>hintMode := True\<rparr>) = Some (idle\<lparr>hintMode := True\<rparr>, None)"
  by (simp add: showHints_def showHints_b_def page_def idle_def generateUniquePrefixes_def
      boundedPrefixes_def generateUniquePrefixes_b_def)

lemma start_without_candidates_general:
  "\<not> hintMode w \<Longrightarrow> clickable env = [] \<Longrightarrow>
   showHints env w = (w\<lparr>hintMode := True\<rparr>, Some InvalidArgument)"
  by (simp add: showHints_def generateUniquePrefixes_def boundedPrefixes_def)

text \<open>
  Claim C5. The claim asks that a partial match removes the marker of every candidate
  whose label does not start with the input. \<open>src/main.ts\<close> only restyles the markers
  that match: in a session of 27 candidates (labels \<open>b\<close> to \<open>z\<close>, \<open>aa\<close>, \<open>ab\<close>) the key
  \<open>a\<close> is a partial match, and afterwards all 27 markers are still there, those of
  the 25 eliminated candidates \<open>b\<close> to \<open>z\<close> among them. The theorem evaluates the
  handler of \<open>src/main.ts\<close> at this input. (The handler of \<open>part_000\<close> removes them:
  \<open>updateMarkers_b_texts\<close>.)
\<close>

theorem eliminated_markers_stay:
  "map textContent (markers (after (keydownHandler page27 session27 [] ''a''))) =
     map (\<lambda>c. [c]) ''bcdefghijklmnopqrstuvwxyz'' @ [''aa'', ''ab''] \<and>
   hintMode (after (keydownHandler page27 session27 [] ''a'')) \<and>
   input (keydownHandler page27 session27 [] ''a'') = ''a'' \<and>
   activated (keydownHandler page27 session27 [] ''a'') = None"
  by (simp add: session27_def showHints_def page27_def page_def idle_def labels27
      numeral_eq_Suc newMarker_def textContent_def keydownHandler_def keydownHandlerWith_def
      toLowerCase_def lowerChar_def capitals_def smalls_def startsWith_def emphasize_def Let_def)

text \<open>The handler of \<open>part_000\<close> at the input of claim C5: only \<open>aa\<close> and \<open>ab\<close> stay.\<close>

lemma eliminated_markers_removed_b:
  "map textContent (markers (after (keydownHandler_b page27 session27 [] ''a''))) = [''aa'', ''ab''] \<and>
   map children (markers (after (keydownHandler_b page27 session27 [] ''a''))) =
     [[Span ''click-hint-matched'' ''a'', TextNode ''a''],
      [Span ''click-hint-matched'' ''a'', TextNode ''b'']]"
  by (simp add: session27_def showHints_def page27_def page_def idle_def labels27
      numeral_eq_Suc newMarker_def textContent_def keydownHandler_b_def keydownHandlerWith_def
      toLowerCase_def lowerChar_def capitals_def smalls_def startsWith_def emphasize_def Let_def)

text \<open>
  What holds of the fallback: when nothing is stored, or the stored object has no
  \<open>hintChars\<close>, the alphabet is the default one, the 26 lower-case letters; label
  generation then returns \<open>n\<close> distinct labels over it for every \<open>n \<ge> 1\<close>, and a
  session start on a page with candidates creates one marker for each and registers
  the listener. A stored \<open>hintChars\<close> is taken as it is. With nothing stored all
  settings are the defaults.
\<close>

lemma settings_fallback:
  "(data = None \<or> (\<exists>d. data = Some d \<and> d ''hintChars'' = None) \<longrightarrow>
      hintChars (loadSettings data) = ''abcdefghijklmnopqrstuvwxyz'' \<and>
      (1 \<le> n \<longrightarrow>
         (\<exists>r. generateUniquePrefixes_b (hintChars (loadSettings data)) n = Some (Inr r) \<and>
              length r = nat n \<and> distinct r \<and> over (hintChars (loadSettings data)) r)) \<and>
      (\<not> hintMode w \<and> clickable env \<noteq> [] \<and> appContainer env \<longrightarrow>
         (\<exists>w'. showHints_b env (loadSettings data) w = Some (w', None) \<and> hintMode w' \<and>
               length (markers w') = length (markers w) + length (clickable env) \<and>
               listeners w' = listeners w @ [[]]))) \<and>
   (\<forall>d v. data = Some d \<and> d ''hintChars'' = Some v \<longrightarrow> hintChars (loadSettings data) = v) \<and>
   loadSettings None = DEFAULT_SETTINGS"
proof -
  have dflt: "hintChars (loadSettings data) = ''abcdefghijklmnopqrstuvwxyz''"
    if "data = None \<or> (\<exists>d. data = Some d \<and> d ''hintChars'' = None)"
    using that by (auto simp: loadSettings_def DEFAULT_SETTINGS_def)
  have gen: "\<exists>r. generateUniquePrefixes_b ''abcdefghijklmnopqrstuvwxyz'' m = Some (Inr r) \<and>
              length r = nat m \<and> distinct r \<and> over ''abcdefghijklmnopqrstuvwxyz'' r"
    if "1 \<le> m" for m
    using that by (intro gup_b_ok) simp_all
  have start: "\<exists>w'. showHints_b env st w = Some (w', None) \<and> hintMode w' \<and>
               length (markers w') = length (markers w) + length (clickable env) \<and>
               listeners w' = listeners w @ [[]]"
    if "hintChars st = ''abcdefghijklmnopqrstuvwxyz''"
       "\<not> hintMode w \<and> clickable env \<noteq> [] \<and> appContainer env" for st
  proof -
    have "1 \<le> int (length (clickable env))" using that(2) by (cases "clickable env") auto
    from gen [OF this] obtain r where
      r: "generateUniquePrefixes_b ''abcdefghijklmnopqrstuvwxyz'' (int (length (clickable env)))
            = Some (Inr r)" "length r = length (clickable env)"
      by auto
    show ?thesis
      using that r by (simp add: showHints_b_def Let_def forEachElement_markers forEachElement_mode)
  qed
  have kept: "\<forall>d v. data = Some d \<and> d ''hintChars'' = Some v \<longrightarrow> hintChars (loadSettings data) = v"
    by (auto simp: loadSettings_def)
  have none: "loadSettings None = DEFAULT_SETTINGS"
    by (simp add: loadSettings_def DEFAULT_SETTINGS_def)
  show ?thesis
  proof (intro conjI)
    show "data = None \<or> (\<exists>d. data = Some d \<and> d ''hintChars'' = None) \<longrightarrow>
      hintChars (loadSettings data) = ''abcdefghijklmnopqrstuvwxyz'' \<and>
      (1 \<le> n \<longrightarrow>
         (\<exists>r. generateUniquePrefixes_b (hintChars (loadSettings data)) n = Some (Inr r) \<and>
              length r = nat n \<and> distinct r \<and> over (hintChars (loadSettings data)) r)) \<and>
      (\<not> hintMode w \<and> clickable env \<noteq> [] \<and> appContainer env \<longrightarrow>
         (\<exists>w'. showHints_b env (loadSettings data) w = Some (w', None) \<and> hintMode w' \<and>
               length (markers w') = length (markers w) + length (clickable env) \<and>
               listeners w' = listeners w @ [[]]))"
    proof (intro impI conjI)
      assume p: "data = None \<or> (\<exists>d. data = Some d \<and> d ''hintChars'' = None)"
      show "hintChars (loadSettings data) = ''abcdefghijklmnopqrstuvwxyz''" by (rule dflt [OF p])
      { assume "1 \<le> n"
        from gen [OF this]
        show "\<exists>r. generateUniquePrefixes_b (hintChars (loadSettings data)) n = Some (Inr r) \<and>
              length r = nat n \<and> distinct r \<and> over (hintChars (loadSettings data)) r"
          by (simp only: dflt [OF p]) }
      { assume "\<not> hintMode w \<and> clickable env \<noteq> [] \<and> appContainer env"
        then show "\<exists>w'. showHints_b env (loadSettings data) w = Some (w', None) \<and> hintMode w' \<and>
               length (markers w') = length (markers w) + length (clickable env) \<and>
               listeners w' = listeners w @ [[]]"
          by (rule start [OF dflt [OF p]]) }
    qed
    show "\<forall>d v. data = Some d \<and> d ''hintChars'' = Some v \<longrightarrow> hintChars (loadSettings data) = v"
      by (rule kept)
    show "loadSettings None = DEFAULT_SETTINGS" by (rule none)
  qed
qed

text \<open>
  Claim C6. The claim asks that an empty \<open>hintChars\<close> falls back to the default
  alphabet, so that label generation still terminates with valid labels. The
  settings tab stores whatever its text field holds, the empty string when the field
  is cleared; at the next load \<open>Object.assign\<close> copies the stored empty string over
  the default. With no letters the label generator of snapshot B never returns for
  one candidate, nor does the session start; the generator of snapshot A returns no
  label at all for one candidate. The theorem evaluates the code at this stored
  configuration.
\<close>

theorem empty_hintChars_never_returns:
  "saveSettings (onChangeHintChars [] DEFAULT_SETTINGS) =
     Some [''hintChars'' \<mapsto> [], ''bgColor'' \<mapsto> ''yellow'', ''fgColor'' \<mapsto> ''#ff6b6b''] \<and>
   hintChars (loadSettings (saveSettings (onChangeHintChars [] DEFAULT_SETTINGS))) = [] \<and>
   generateUniquePrefixes_b
     (hintChars (loadSettings (saveSettings (onChangeHintChars [] DEFAULT_SETTINGS)))) 1 = None \<and>
   showHints_b (page [button])
     (loadSettings (saveSettings (onChangeHintChars [] DEFAULT_SETTINGS))) idle = None \<and>
   generateUniquePrefixes_a
     (hintChars (loadSettings (saveSettings (onChangeHintChars [] DEFAULT_SETTINGS)))) 1 = Inr []"
  by (simp add: saveSettings_def onChangeHintChars_def DEFAULT_SETTINGS_def loadSettings_def
      gup_b_empty showHints_b_def idle_def page_def generateUniquePrefixes_a_def
      boundedPrefixes_def)

text \<open>
  Claim C7, as stated, fails: an anchor that is not an internal link gets two actions,
  \<open>window.open\<close> and then \<open>click\<close>; an internal link gets none when there is no
  active file.
\<close>

theorem dispatch_two_or_none_counterexample:
  "dispatchElementAction page3 externalLink =
     Inr [WindowOpen ''https://example.com'' ''_blank'', Click externalLink] \<and>
   dispatchElementAction (page3\<lparr>activeFile := None\<rparr>) noteLink = Inr []"
  by (simp add: dispatchElementAction_def externalLink_def noteLink_def page3_def page_def)

text \<open>
  Claim C7, amended. An internal link (an \<open>A\<close> element whose parent's class name
  contains \<open>internal-link\<close>) is opened through the workspace by its decoded text,
  relative to the active file, when there is an active file (the exception of
  \<open>decodeURI\<close> leaves the dispatch when the text cannot be decoded), and nothing is
  done when there is none; it is never clicked. Any other \<open>A\<close> element is opened with
  \<open>window.open\<close> on its visible text in \<open>_blank\<close> and is then clicked as well. Every
  other element is clicked, and nothing else.
\<close>

theorem dispatch_by_kind:
  "(internalLink el \<and> activeFile env = Some path \<and> decodeURI env (innerText el) = Inr t \<longrightarrow>
      dispatchElementAction env el = Inr [OpenLinkText t path]) \<and>
   (internalLink el \<and> activeFile env = Some path \<and> decodeURI env (innerText el) = Inl e \<longrightarrow>
      dispatchElementAction env el = Inl e) \<and>
   (internalLink el \<and> activeFile env = None \<longrightarrow> dispatchElementAction env el = Inr []) \<and>
   (tagName el = ''A'' \<and> \<not> internalLink el \<longrightarrow>
      dispatchElementAction env el = Inr [WindowOpen (innerText el) ''_blank'', Click el]) \<and>
   (tagName el \<noteq> ''A'' \<longrightarrow> dispatchElementAction env el = Inr [Click el])"
  by (auto simp: dispatchElementAction_def internalLink_def split: option.splits)

theorem dispatch_by_kind_witness:
  "internalLink noteLink \<and> activeFile page3 = Some ''note.md'' \<and>
   decodeURI page3 (innerText noteLink) = Inr ''Note'' \<and>
   dispatchElementAction page3 noteLink = Inr [OpenLinkText ''Note'' ''note.md''] \<and>
   tagName externalLink = ''A'' \<and> \<not> internalLink externalLink \<and>
   dispatchElementAction page3 externalLink =
     Inr [WindowOpen (innerText externalLink) ''_blank'', Click externalLink] \<and>
   tagName button \<noteq> ''A'' \<and> dispatchElementAction page3 button = Inr [Click button]"
proof -
  have a: "internalLink noteLink \<and> activeFile page3 = Some ''note.md'' \<and>
           decodeURI page3 (innerText noteLink) = Inr ''Note''"
    by (simp add: internalLink_def noteLink_def page3_def page_def exampleDecodeURI_def)
  have b: "tagName externalLink = ''A'' \<and> \<not> internalLink externalLink"
    by (simp add: internalLink_def externalLink_def)
  have c: "tagName button \<noteq> ''A''" by (simp add: button_def)
  show ?thesis
    using a b c dispatch_by_kind [of noteLink page3 "''note.md''" "''Note''"]
      dispatch_by_kind [of externalLink page3] dispatch_by_kind [of button page3]
    by simp
qed

end
